theory Spec2Isabelle
  imports Complex_Main "HOL-Library.Word" "HOL-Library.Sublist"
begin

section \<open>JavaScript strings\<close>

text \<open>
  A JavaScript string is a sequence of 16-bit code units. The string methods the
  pipeline calls (\<open>includes\<close>, \<open>split\<close>, \<open>trim\<close>) are built-ins of the language; they
  are written out here as ECMA-262 defines them, on code units, under the names
  \<open>str_includes\<close>, \<open>str_split\<close> and \<open>str_trim\<close>.
\<close>

type_synonym code_unit = "16 word"
type_synonym jsstring = "code_unit list"

definition js :: "string \<Rightarrow> jsstring" where
  \<comment> \<open>an ASCII literal of the source as code units\<close>
  "js s = map of_char s"

fun str_includes :: "'a list \<Rightarrow> 'a list \<Rightarrow> bool" where
  \<comment> \<open>\<open>s.includes(sep)\<close>\<close>
  "str_includes [] sep = (sep = [])"
| "str_includes (c # cs) sep = (prefix sep (c # cs) \<or> str_includes cs sep)"

fun indexOf :: "'a list \<Rightarrow> 'a list \<Rightarrow> nat option" where
  \<comment> \<open>\<open>s.indexOf(sep)\<close>, with \<open>None\<close> for -1\<close>
  "indexOf [] sep = (if sep = [] then Some 0 else None)"
| "indexOf (c # cs) sep =
     (if prefix sep (c # cs) then Some 0 else map_option Suc (indexOf cs sep))"

function str_split :: "'a list \<Rightarrow> 'a list \<Rightarrow> 'a list list" where
  \<comment> \<open>\<open>s.split(sep)\<close>: cut at every occurrence of \<open>sep\<close>, scanning from the left; an empty
      separator cuts between all code units\<close>
  "str_split s sep =
     (if sep = [] then map (\<lambda>c. [c]) s
      else case indexOf s sep of
             None \<Rightarrow> [s]
           | Some i \<Rightarrow> take i s # str_split (drop (i + length sep) s) sep)"
  by pat_completeness auto
termination
proof (relation "measure (\<lambda>(s, sep). length s)")
  show "wf (measure (\<lambda>(s, sep). length s))" by simp
next
  fix s sep :: "'a list" and i
  assume sep: "sep \<noteq> []" and found: "indexOf s sep = Some i"
  have "indexOf t sep = Some j \<Longrightarrow> j + length sep \<le> length t" for t j
  proof (induction t arbitrary: j)
    case Nil
    then show ?case by (simp split: if_splits)
  next
    case (Cons c cs)
    then show ?case by (auto split: if_splits dest: prefix_length_le)
  qed
  from this[OF found] sep
  show "((drop (i + length sep) s, sep), (s, sep)) \<in> measure (\<lambda>(s, sep). length s)"
    by (cases sep) auto
qed

declare str_split.simps [simp del]

definition is_white_space :: "code_unit \<Rightarrow> bool" where
  \<comment> \<open>WhiteSpace and LineTerminator of ECMA-262, the code points \<open>trim\<close> strips\<close>
  "is_white_space c \<longleftrightarrow>
     c \<in> {0x09, 0x0A, 0x0B, 0x0C, 0x0D, 0x20, 0xA0, 0x1680, 0x2028, 0x2029,
          0x202F, 0x205F, 0x3000, 0xFEFF} \<or> (0x2000 \<le> c \<and> c \<le> 0x200A)"

definition str_trim :: "jsstring \<Rightarrow> jsstring" where
  \<comment> \<open>\<open>s.trim()\<close>\<close>
  "str_trim s = rev (dropWhile is_white_space (rev (dropWhile is_white_space s)))"

definition at_index :: "'a list \<Rightarrow> nat \<Rightarrow> 'a option" where
  \<comment> \<open>\<open>xs[i]\<close>: \<open>undefined\<close> out of range\<close>
  "at_index xs i = (if i < length xs then Some (xs ! i) else None)"

section \<open>Extraction of the JSON payload\<close>

definition fence :: jsstring where
  "fence = js ''```''"

definition fence_json :: jsstring where
  "fence_json = js ''```json''"

definition or_default :: "jsstring option \<Rightarrow> jsstring \<Rightarrow> jsstring" where
  \<comment> \<open>\<open>x || text\<close>: \<open>undefined\<close> and the empty string are falsy\<close>
  "or_default x raw = (case x of None \<Rightarrow> raw | Some s \<Rightarrow> if s = [] then raw else s)"

definition fenced_part :: "jsstring \<Rightarrow> jsstring \<Rightarrow> jsstring option" where
  \<comment> \<open>\<open>text.split(marker)[1]?.split("```")[0]?.trim()\<close>\<close>
  "fenced_part raw marker =
     (case at_index (str_split raw marker) 1 of
        None \<Rightarrow> None
      | Some rest \<Rightarrow>
          (case at_index (str_split rest fence) 0 of
             None \<Rightarrow> None
           | Some body \<Rightarrow> Some (str_trim body)))"

definition extract_json :: "jsstring \<Rightarrow> jsstring" where
  \<comment> \<open>lines 214-219 of gemini-comparison.ts\<close>
  "extract_json raw =
     (if str_includes raw fence_json then or_default (fenced_part raw fence_json) raw
      else if str_includes raw fence then or_default (fenced_part raw fence) raw
      else raw)"

section \<open>JSON values and the response schema\<close>

text \<open>
  The value \<open>JSON.parse\<close> returns. Numbers are reals: the rounding and the infinities
  of IEEE doubles are left out, since the pipeline only asks whether a value is a number.
  An object is its list of properties; a property is read with \<open>map_of\<close>.
\<close>

datatype json =
    JNull
  | JBool bool
  | JNum real
  | JStr jsstring
  | JArr "json list"
  | JObj "(jsstring \<times> json) list"

text \<open>
  The combinators of the validation library that \<open>PhoneComparisonSchema\<close> is built
  from, and what \<open>schema.parse\<close> does with them: a value that is absent (a missing
  property, \<open>undefined\<close>) is \<open>None\<close>; an object schema reads the properties of its
  shape and drops every other property; a record schema checks every entry and leaves the
  entry named \<open>__proto__\<close> out of the value it returns; all issues are collected.
\<close>

datatype schema =
    ZString
  | ZNumber
  | ZObject "(jsstring \<times> schema) list"
  | ZArray schema
  | ZRecord schema schema
  | ZUnion "schema list"
  | ZOptional schema
  | ZNullable schema

datatype path_elem = Key jsstring | Index nat

datatype parsed_type =
  TUndefined | TNull | TBoolean | TNumber | TString | TArray | TObject

datatype zod_issue =
    InvalidType "path_elem list" parsed_type parsed_type
  | InvalidUnion "path_elem list"

fun getParsedType :: "json option \<Rightarrow> parsed_type" where
  "getParsedType None = TUndefined"
| "getParsedType (Some JNull) = TNull"
| "getParsedType (Some (JBool b)) = TBoolean"
| "getParsedType (Some (JNum n)) = TNumber"
| "getParsedType (Some (JStr s)) = TString"
| "getParsedType (Some (JArr xs)) = TArray"
| "getParsedType (Some (JObj kvs)) = TObject"

definition issues_of :: "('e list + 'a) list \<Rightarrow> 'e list" where
  "issues_of rs = concat (map (\<lambda>r. case r of Inl es \<Rightarrow> es | Inr _ \<Rightarrow> []) rs)"

definition present :: "('e + 'a option) \<Rightarrow> 'a list" where
  \<comment> \<open>the parsed value, unless it is \<open>undefined\<close>\<close>
  "present r = (case r of Inr (Some x) \<Rightarrow> [x] | _ \<Rightarrow> [])"

fun zparse :: "schema \<Rightarrow> path_elem list \<Rightarrow> json option \<Rightarrow> zod_issue list + json option" where
  "zparse ZString p v =
     (case v of Some (JStr s) \<Rightarrow> Inr v | _ \<Rightarrow> Inl [InvalidType p TString (getParsedType v)])"
| "zparse ZNumber p v =
     (case v of Some (JNum n) \<Rightarrow> Inr v | _ \<Rightarrow> Inl [InvalidType p TNumber (getParsedType v)])"
| "zparse (ZOptional s) p v = (case v of None \<Rightarrow> Inr None | _ \<Rightarrow> zparse s p v)"
| "zparse (ZNullable s) p v =
     (case v of Some JNull \<Rightarrow> Inr (Some JNull) | _ \<Rightarrow> zparse s p v)"
| "zparse (ZObject shape) p v =
     (case v of
        Some (JObj kvs) \<Rightarrow>
          (let rs = map (\<lambda>(k, s). (k, zparse s (p @ [Key k]) (map_of kvs k))) shape
           in if issues_of (map snd rs) = []
              then Inr (Some (JObj (concat (map (\<lambda>(k, r). map (Pair k) (present r)) rs))))
              else Inl (issues_of (map snd rs)))
      | _ \<Rightarrow> Inl [InvalidType p TObject (getParsedType v)])"
| "zparse (ZArray s) p v =
     (case v of
        Some (JArr xs) \<Rightarrow>
          (let rs = map (\<lambda>(i, x). zparse s (p @ [Index i]) (Some x)) (enumerate 0 xs)
           in if issues_of rs = []
              then Inr (Some (JArr (concat (map present rs))))
              else Inl (issues_of rs))
      | _ \<Rightarrow> Inl [InvalidType p TArray (getParsedType v)])"
| "zparse (ZRecord ks vs) p v =
     (case v of
        Some (JObj kvs) \<Rightarrow>
          (let rs = map (\<lambda>(k, x). (k, zparse ks (p @ [Key k]) (Some (JStr k)),
                                       zparse vs (p @ [Key k]) (Some x))) kvs;
               issues = issues_of (map (fst \<circ> snd) rs) @ issues_of (map (snd \<circ> snd) rs)
           in if issues = []
              then Inr (Some (JObj (concat (map (\<lambda>(k, rk, r). map (Pair k) (present r))
                                     (filter (\<lambda>(k, rk, r). k \<noteq> js ''__proto__'') rs)))))
              else Inl issues)
      | _ \<Rightarrow> Inl [InvalidType p TObject (getParsedType v)])"
| "zparse (ZUnion ss) p v =
     (case filter (\<lambda>r. \<not> isl r) (map (\<lambda>s. zparse s p v) ss) of
        r # _ \<Rightarrow> r
      | [] \<Rightarrow> Inl [InvalidUnion p])"

definition PhoneComparisonSchema :: schema where
  "PhoneComparisonSchema = ZObject
     [(js ''selected_phone'', ZObject
         [(js ''phone_id'', ZString),
          (js ''phone_name'', ZString),
          (js ''reason_for_selection'', ZString),
          (js ''how_it_matches_priorities'', ZString)]),
      (js ''runner_up'', ZOptional (ZObject
         [(js ''phone_id'', ZString),
          (js ''phone_name'', ZString),
          (js ''why_not_selected'', ZString)])),
      (js ''all_phones_evaluated'', ZArray (ZObject
         [(js ''phone_id'', ZString),
          (js ''phone_name'', ZString),
          (js ''price_inr'', ZNumber),
          (js ''key_strengths'', ZArray ZString),
          (js ''key_weaknesses'', ZArray ZString),
          (js ''score_by_priority'', ZRecord ZString ZNumber)])),
      (js ''tradeoff_analysis'', ZArray (ZObject
         [(js ''phone_a'', ZString),
          (js ''phone_b'', ZString),
          (js ''what_a_gains'', ZString),
          (js ''what_a_loses'', ZString),
          (js ''recommendation'', ZString)])),
      (js ''specification_comparison'', ZArray (ZObject
         [(js ''spec_name'', ZString),
          (js ''values'', ZRecord ZString (ZUnion [ZString, ZNumber])),
          (js ''winner'', ZString),
          (js ''analysis'', ZString)])),
      (js ''budget_analysis'', ZObject
         [(js ''selected_phone_price'', ZNumber),
          (js ''price_range'', ZString),
          (js ''value_for_money_explanation'', ZString),
          (js ''alternative_if_budget_increases'', ZOptional (ZNullable ZString)),
          (js ''alternative_if_budget_decreases'', ZOptional (ZNullable ZString))]),
      (js ''summary'', ZString)]"

section \<open>The comparison pipeline\<close>

datatype number = Num real | NaN

text \<open>
  \<open>PhoneData\<close> is declared in the catalog loader; these are the fields the pipeline reads.
  The field \<open>id\<close> is \<open>id_of\<close> here.
\<close>

record PhoneData =
  id_of :: jsstring
  name :: jsstring
  price_inr :: number
  brand :: jsstring
  price_range :: jsstring
  battery_mah :: number
  camera_mp :: number
  rear_camera_details :: jsstring
  screen_inches :: number
  display_type :: jsstring
  refresh_rate :: number
  ram_gb :: number
  storage_gb :: number
  processor :: jsstring
  fast_charging_w :: number
  has_5g :: bool
  weight_grams :: number
  os :: jsstring
  key_features :: jsstring
  front_camera_mp :: number

record ComparisonRequest =
  phones :: "PhoneData list"
  budget :: "number option"
  priorities :: "jsstring list"
  additionalRequirements :: "jsstring option"

text \<open>What a \<open>catch\<close> clause receives: an \<open>Error\<close> with its message, or any other value.\<close>

datatype thrown = ErrorObj jsstring | NonError

text \<open>
  The collaborators outside the repository, for one run of the pipeline:
  the credential in the process environment; the generative backend (the model name and
  the prompt give the text of the response, or the call throws; a run calls each model
  at most once, so a function says all that the run sees of it); \<open>JSON.parse\<close> (a
  \<open>SyntaxError\<close> with its message, or the value); the message of the validation
  library's error; and the rendering of the prompt (lines 108-194), which depends on
  locale number formatting and on which no result depends.
\<close>

record env =
  GEMINI_API_KEY :: "jsstring option"
  generateContent :: "jsstring \<Rightarrow> jsstring \<Rightarrow> thrown + jsstring"
  JSON_parse :: "jsstring \<Rightarrow> jsstring + json"
  zod_message :: "zod_issue list \<Rightarrow> jsstring"
  build_prompt :: "ComparisonRequest \<Rightarrow> jsstring"

definition modelsToTry :: "jsstring list" where
  "modelsToTry = [js ''gemini-2.0-flash-exp'', js ''gemini-1.5-flash'']"

definition attempt :: "'a env_scheme \<Rightarrow> jsstring \<Rightarrow> jsstring \<Rightarrow> thrown + json option" where
  \<comment> \<open>the body of the \<open>try\<close> block, lines 204-230\<close>
  "attempt e prompt modelName =
     (case generateContent e modelName prompt of
        Inl err \<Rightarrow> Inl err
      | Inr raw \<Rightarrow>
          (case JSON_parse e (extract_json raw) of
             Inl msg \<Rightarrow> Inl (ErrorObj msg)
           | Inr parsed \<Rightarrow>
               (case zparse PhoneComparisonSchema [] (Some parsed) of
                  Inl issues \<Rightarrow> Inl (ErrorObj (zod_message e issues))
                | Inr validated \<Rightarrow> Inr validated)))"

definition error_message :: "thrown \<Rightarrow> jsstring" where
  \<comment> \<open>\<open>error instanceof Error ? error.message : 'Unknown error'\<close>\<close>
  "error_message err = (case err of ErrorObj msg \<Rightarrow> msg | NonError \<Rightarrow> js ''Unknown error'')"

text \<open>
  The loop of lines 200-245 over the models still to try. \<open>lastError\<close> is the message
  of the \<open>Error\<close> kept so far (\<open>None\<close> for \<open>null\<close>); \<open>invoked\<close> lists the models
  the backend was called with, in order. Each result is paired with that list. After a
  failure the loop goes on to the next model, by \<open>continue\<close> or, at the last model, by
  reaching the end of the body; past the last model it throws the aggregated error.
\<close>

fun try_models ::
  "'a env_scheme \<Rightarrow> jsstring \<Rightarrow> jsstring list \<Rightarrow> jsstring option \<Rightarrow> jsstring list
     \<Rightarrow> (thrown + json option) \<times> jsstring list" where
  "try_models e prompt [] lastError invoked =
     (Inl (ErrorObj (js ''All Gemini models failed. Last error: ''
                      @ or_default lastError (js ''Unknown error''))), invoked)"
| "try_models e prompt (modelName # rest) lastError invoked =
     (case attempt e prompt modelName of
        Inr validated \<Rightarrow> (Inr validated, invoked @ [modelName])
      | Inl err \<Rightarrow> try_models e prompt rest (Some (error_message err)) (invoked @ [modelName]))"

definition compareAndSelectPhone ::
  "'a env_scheme \<Rightarrow> ComparisonRequest \<Rightarrow> (thrown + json option) \<times> jsstring list" where
  "compareAndSelectPhone e request =
     (if (case GEMINI_API_KEY e of None \<Rightarrow> True | Some k \<Rightarrow> k = [])
      then (Inl (ErrorObj (js ''GEMINI_API_KEY is not set'')), [])
      else if length (phones request) = 0
      then (Inl (ErrorObj (js ''No phones to compare'')), [])
      else try_models e (build_prompt e request) modelsToTry None [])"

record GroundedComparison =
  comparison :: "json option"
  sources :: "(jsstring \<times> jsstring) list"

definition compareWithGrounding ::
  "'a env_scheme \<Rightarrow> ComparisonRequest \<Rightarrow> (thrown + GroundedComparison) \<times> jsstring list" where
  "compareWithGrounding e request =
     (case compareAndSelectPhone e request of
        (Inl err, invoked) \<Rightarrow> (Inl err, invoked)
      | (Inr c, invoked) \<Rightarrow> (Inr \<lparr>comparison = c, sources = []\<rparr>, invoked))"

section \<open>The server action\<close>

text \<open>
  The collaborators of \<open>comparePhones\<close> beyond those of the pipeline: the catalog
  loader (either call may throw), \<open>parseFloat\<close>, \<open>toLocaleString('en-IN')\<close>, the
  product of two doubles (rounded as IEEE 754 has it), and the two readings of
  \<open>Date.now()\<close> a run makes.
\<close>

record actions_env = env +
  loadPhonesFromCSV :: "thrown + PhoneData list"
  getPhonesInBudget :: "number \<Rightarrow> thrown + PhoneData list"
  parseFloat :: "jsstring \<Rightarrow> number"
  toLocaleString_en_IN :: "number \<Rightarrow> jsstring"
  double_times :: "real \<Rightarrow> real \<Rightarrow> real"
  Date_now_start :: int
  Date_now_end :: int

text \<open>An entry of a \<open>FormData\<close> is a string or a file; \<open>get\<close> gives \<open>null\<close> for a missing name.\<close>

datatype form_value = FString jsstring | FFile

type_synonym FormData = "(jsstring \<times> form_value) list"

definition formData_get :: "FormData \<Rightarrow> jsstring \<Rightarrow> form_value option" where
  "formData_get formData field = map_of formData field"

record CompareState =
  comparison :: "json option"
  phones :: "PhoneData list"
  sources :: "(jsstring \<times> jsstring) list"
  error :: "jsstring option"
  processingTime :: int

fun truthy_number :: "number \<Rightarrow> bool" where
  "truthy_number (Num r) = (r \<noteq> 0)"
| "truthy_number NaN = False"

fun number_times :: "'a actions_env_scheme \<Rightarrow> number \<Rightarrow> number \<Rightarrow> number" where
  \<comment> \<open>\<open>a * b\<close> on numbers\<close>
  "number_times e (Num a) (Num b) = Num (double_times e a b)"
| "number_times e _ _ = NaN"

definition double_1_2 :: real where
  \<comment> \<open>the double that the literal \<open>1.2\<close> denotes\<close>
  "double_1_2 = 5404319552844595 / 4503599627370496"

fun number_le :: "number \<Rightarrow> number \<Rightarrow> bool" where
  "number_le (Num a) (Num b) = (a \<le> b)"
| "number_le _ _ = False"

definition to_string :: "form_value \<Rightarrow> jsstring" where
  \<comment> \<open>the string a form entry becomes where the code uses it as one\<close>
  "to_string v = (case v of FString s \<Rightarrow> s | FFile \<Rightarrow> js ''[object File]'')"

definition parse_budget :: "'a actions_env_scheme \<Rightarrow> form_value option \<Rightarrow> number option" where
  \<comment> \<open>\<open>budgetStr ? parseFloat(budgetStr) : undefined\<close>\<close>
  "parse_budget e budgetStr =
     (case budgetStr of
        None \<Rightarrow> None
      | Some v \<Rightarrow> if v = FString [] then None else Some (parseFloat e (to_string v)))"

definition parse_priorities :: "form_value option \<Rightarrow> thrown + jsstring list" where
  \<comment> \<open>\<open>prioritiesStr ? prioritiesStr.split(",").map(p => p.trim()).filter(Boolean) : []\<close>;
      a file has no \<open>split\<close> method, and the call throws a \<open>TypeError\<close>\<close>
  "parse_priorities prioritiesStr =
     (case prioritiesStr of
        None \<Rightarrow> Inr []
      | Some FFile \<Rightarrow> Inl (ErrorObj (js ''prioritiesStr.split is not a function''))
      | Some (FString s) \<Rightarrow>
          if s = [] then Inr []
          else Inr (filter (\<lambda>p. p \<noteq> []) (map str_trim (str_split s (js '','')))))"

definition load_phones :: "'a actions_env_scheme \<Rightarrow> number option \<Rightarrow> thrown + PhoneData list" where
  \<comment> \<open>lines 66-78 of actions.ts\<close>
  "load_phones e budget' =
     (case budget' of
        None \<Rightarrow> loadPhonesFromCSV e
      | Some b \<Rightarrow>
          if truthy_number b then
            (case getPhonesInBudget e b of
               Inl err \<Rightarrow> Inl err
             | Inr inBudget \<Rightarrow>
                 if length inBudget < 3 then
                   (case loadPhonesFromCSV e of
                      Inl err \<Rightarrow> Inl err
                    | Inr allPhones \<Rightarrow>
                        Inr (filter (\<lambda>p. number_le (price_inr p) (number_times e b (Num double_1_2)))
                               allPhones))
                 else Inr inBudget)
          else loadPhonesFromCSV e)"

definition requirements_for :: "bool \<Rightarrow> form_value option \<Rightarrow> jsstring option" where
  \<comment> \<open>\<open>require5G ? `Must have 5G. ${additionalRequirements || ''}` : additionalRequirements\<close>;
      a file is passed on as it is and reaches the prompt as its string\<close>
  "requirements_for require5G requirements =
     (if require5G
      then Some (js ''Must have 5G. '' @ (case requirements of None \<Rightarrow> [] | Some v \<Rightarrow> to_string v))
      else map_option to_string requirements)"

definition comparePhones_try :: "'a actions_env_scheme \<Rightarrow> FormData \<Rightarrow> thrown + CompareState" where
  \<comment> \<open>the \<open>try\<close> block, lines 40-138 of actions.ts; a local variable whose name is a
      field of \<open>ComparisonRequest\<close> carries a prime\<close>
  "comparePhones_try e formData =
     (let budget' = parse_budget e (formData_get formData (js ''budget''))
      in case parse_priorities (formData_get formData (js ''priorities'')) of
           Inl err \<Rightarrow> Inl err
         | Inr priorities' \<Rightarrow>
             if length priorities' = 0 then
               Inr \<lparr>comparison = None, phones = [], sources = [],
                    error = Some (js ''Please select at least one priority (battery, camera, performance, etc.)''),
                    processingTime = 0\<rparr>
             else
               (let requirements = formData_get formData (js ''requirements'');
                    require5G = (formData_get formData (js ''require_5g'') = Some (FString (js ''on'')));
                    useGrounding = (formData_get formData (js ''use_grounding'') = Some (FString (js ''on'')))
                in case load_phones e budget' of
                     Inl err \<Rightarrow> Inl err
                   | Inr loaded \<Rightarrow>
                       (let filtered = (if require5G then filter has_5g loaded else loaded)
                        in if length filtered = 0 then
                             Inr \<lparr>comparison = None, phones = [], sources = [],
                                  error = Some (js ''No phones found within budget '' @ [0x20B9]
                                    @ (case budget' of None \<Rightarrow> js ''undefined''
                                       | Some b \<Rightarrow> toLocaleString_en_IN e b)
                                    @ js ''. Try increasing your budget.''),
                                  processingTime = Date_now_end e - Date_now_start e\<rparr>
                           else
                             (let limited = (if length filtered > 10 then take 10 filtered else filtered);
                                  request = \<lparr>ComparisonRequest.phones = limited, budget = budget',
                                             priorities = priorities',
                                             additionalRequirements =
                                               requirements_for require5G requirements\<rparr>
                              in if useGrounding then
                                   (case fst (compareWithGrounding e request) of
                                      Inl err \<Rightarrow> Inl err
                                    | Inr result \<Rightarrow>
                                        Inr \<lparr>comparison = GroundedComparison.comparison result,
                                             phones = limited,
                                             sources = GroundedComparison.sources result,
                                             error = None,
                                             processingTime = Date_now_end e - Date_now_start e\<rparr>)
                                 else
                                   (case fst (compareAndSelectPhone e request) of
                                      Inl err \<Rightarrow> Inl err
                                    | Inr c \<Rightarrow>
                                        Inr \<lparr>comparison = c, phones = limited, sources = [],
                                             error = None,
                                             processingTime = Date_now_end e - Date_now_start e\<rparr>)))))"

definition comparePhones :: "'a actions_env_scheme \<Rightarrow> CompareState \<Rightarrow> FormData \<Rightarrow> CompareState" where
  \<comment> \<open>the \<open>try\<close> block, and the \<open>catch\<close> clause of lines 139-148\<close>
  "comparePhones e prevState formData =
     (case comparePhones_try e formData of
        Inr state \<Rightarrow> state
      | Inl err \<Rightarrow>
          \<lparr>comparison = None, phones = [], sources = [],
           error = Some (case err of ErrorObj msg \<Rightarrow> msg
                         | NonError \<Rightarrow> js ''An unexpected error occurred''),
           processingTime = Date_now_end e - Date_now_start e\<rparr>)"

section \<open>Notions the properties are stated with\<close>

definition credential_set :: "'a env_scheme \<Rightarrow> bool" where
  \<comment> \<open>\<open>process.env.GEMINI_API_KEY\<close> is truthy\<close>
  "credential_set e \<longleftrightarrow> (case GEMINI_API_KEY e of None \<Rightarrow> False | Some k \<Rightarrow> k \<noteq> [])"

subsection \<open>Reading a result\<close>

definition get_property :: "json option \<Rightarrow> jsstring \<Rightarrow> json option" where
  \<comment> \<open>\<open>v?.[k]\<close> on a parsed value\<close>
  "get_property v k = (case v of Some (JObj kvs) \<Rightarrow> map_of kvs k | _ \<Rightarrow> None)"

definition selected_phone_id :: "json option \<Rightarrow> json option" where
  \<comment> \<open>\<open>result.selected_phone.phone_id\<close>\<close>
  "selected_phone_id r = get_property (get_property r (js ''selected_phone'')) (js ''phone_id'')"

definition runner_up_phone_id :: "json option \<Rightarrow> json option" where
  \<comment> \<open>\<open>result.runner_up?.phone_id\<close>\<close>
  "runner_up_phone_id r = get_property (get_property r (js ''runner_up'')) (js ''phone_id'')"

definition evaluated_phone_ids :: "json option \<Rightarrow> json option list" where
  \<comment> \<open>\<open>result.all_phones_evaluated.map(p => p.phone_id)\<close>\<close>
  "evaluated_phone_ids r =
     (case get_property r (js ''all_phones_evaluated'') of
        Some (JArr xs) \<Rightarrow> map (\<lambda>x. get_property (Some x) (js ''phone_id'')) xs
      | _ \<Rightarrow> [])"

definition is_phone_id_of :: "ComparisonRequest \<Rightarrow> json option \<Rightarrow> bool" where
  "is_phone_id_of request v =
     (case v of Some (JStr s) \<Rightarrow> s \<in> set (map id_of (ComparisonRequest.phones request)) | _ \<Rightarrow> False)"

definition references_only_request_phones :: "ComparisonRequest \<Rightarrow> json option \<Rightarrow> bool" where
  \<comment> \<open>the selected phone, the runner-up when there is one, and every evaluated phone
      carry the id of a phone of the request\<close>
  "references_only_request_phones request r \<longleftrightarrow>
     is_phone_id_of request (selected_phone_id r)
     \<and> (get_property r (js ''runner_up'') = None \<or> is_phone_id_of request (runner_up_phone_id r))
     \<and> list_all (is_phone_id_of request) (evaluated_phone_ids r)"

subsection \<open>Fenced blocks\<close>

definition up_to :: "'a list \<Rightarrow> 'a list \<Rightarrow> 'a list" where
  \<comment> \<open>\<open>s\<close> cut at the first occurrence of \<open>sep\<close>; all of \<open>s\<close> when there is none\<close>
  "up_to s sep = (case indexOf s sep of None \<Rightarrow> s | Some i \<Rightarrow> take i s)"

definition after_first :: "'a list \<Rightarrow> 'a list \<Rightarrow> 'a list" where
  \<comment> \<open>what follows the first occurrence of \<open>sep\<close> in \<open>s\<close>\<close>
  "after_first s sep = (case indexOf s sep of None \<Rightarrow> [] | Some i \<Rightarrow> drop (i + length sep) s)"





definition wrap_in_json_fence :: "jsstring \<Rightarrow> jsstring" where
  \<comment> \<open>\<open>s\<close> on a line of its own inside a block labelled as JSON\<close>
  "wrap_in_json_fence s = fence_json @ [0x0A] @ s @ [0x0A] @ fence"

definition tolerates_outer_white_space :: "(jsstring \<Rightarrow> jsstring + json) \<Rightarrow> bool" where
  \<comment> \<open>what the JSON grammar gives \<open>JSON.parse\<close>: the empty text is no JSON text, and a
      JSON text parses to the same value without the white space around it\<close>
  "tolerates_outer_white_space parse \<longleftrightarrow>
     isl (parse []) \<and> (\<forall>s v. parse s = Inr v \<longrightarrow> parse (str_trim s) = Inr v)"

subsection \<open>Payloads without their optional fields\<close>

definition delete_key :: "jsstring \<Rightarrow> (jsstring \<times> json) list \<Rightarrow> (jsstring \<times> json) list" where
  "delete_key k kvs = filter (\<lambda>kv. fst kv \<noteq> k) kvs"

definition omit_optional_fields :: "(jsstring \<times> json) list \<Rightarrow> (jsstring \<times> json) list" where
  \<comment> \<open>the payload without \<open>runner_up\<close> and without the two budget alternatives\<close>
  "omit_optional_fields kvs =
     map (\<lambda>(k, v).
            if k = js ''budget_analysis''
            then (k, case v of
                       JObj b \<Rightarrow> JObj (delete_key (js ''alternative_if_budget_increases'')
                                         (delete_key (js ''alternative_if_budget_decreases'') b))
                     | _ \<Rightarrow> v)
            else (k, v))
         (delete_key (js ''runner_up'') kvs)"

section \<open>Example inputs\<close>

text \<open>
  The scenario of the specification: three phones \<open>p1\<close>, \<open>p2\<close>, \<open>p3\<close>, a budget of
  30000, the priorities battery and camera, and a response that selects \<open>p2\<close>.
\<close>

definition example_payload_text :: jsstring where
  \<open>example_payload_text = js ''{"selected_phone":{"phone_id":"p2","phone_name":"B","reason_for_selection":"r","how_it_matches_priorities":"h"},"runner_up":{"phone_id":"p1","phone_name":"A","why_not_selected":"n"},"all_phones_evaluated":[{"phone_id":"p2","phone_name":"B","price_inr":29999,"key_strengths":["s"],"key_weaknesses":["w"],"score_by_priority":{"battery":8}}],"tradeoff_analysis":[],"specification_comparison":[],"budget_analysis":{"selected_phone_price":29999,"price_range":"mid","value_for_money_explanation":"v","alternative_if_budget_increases":"p3","alternative_if_budget_decreases":null},"summary":"ok"}''\<close>

definition example_fields :: "json \<Rightarrow> (jsstring \<times> json) list" where
  \<comment> \<open>the properties of the example payload, with the given \<open>price_inr\<close>\<close>
  "example_fields price =
     [(js ''selected_phone'', JObj
         [(js ''phone_id'', JStr (js ''p2'')),
          (js ''phone_name'', JStr (js ''B'')),
          (js ''reason_for_selection'', JStr (js ''r'')),
          (js ''how_it_matches_priorities'', JStr (js ''h''))]),
      (js ''runner_up'', JObj
         [(js ''phone_id'', JStr (js ''p1'')),
          (js ''phone_name'', JStr (js ''A'')),
          (js ''why_not_selected'', JStr (js ''n''))]),
      (js ''all_phones_evaluated'', JArr [JObj
         [(js ''phone_id'', JStr (js ''p2'')),
          (js ''phone_name'', JStr (js ''B'')),
          (js ''price_inr'', price),
          (js ''key_strengths'', JArr [JStr (js ''s'')]),
          (js ''key_weaknesses'', JArr [JStr (js ''w'')]),
          (js ''score_by_priority'', JObj [(js ''battery'', JNum 8)])]]),
      (js ''tradeoff_analysis'', JArr []),
      (js ''specification_comparison'', JArr []),
      (js ''budget_analysis'', JObj
         [(js ''selected_phone_price'', JNum 29999),
          (js ''price_range'', JStr (js ''mid'')),
          (js ''value_for_money_explanation'', JStr (js ''v'')),
          (js ''alternative_if_budget_increases'', JStr (js ''p3'')),
          (js ''alternative_if_budget_decreases'', JNull)]),
      (js ''summary'', JStr (js ''ok''))]"

definition example_payload :: json where
  "example_payload = JObj (example_fields (JNum 29999))"

definition example_phone :: "jsstring \<Rightarrow> PhoneData" where
  "example_phone i =
     \<lparr>id_of = i, name = js ''Phone'', price_inr = Num 29999, brand = js ''Brand'',
      price_range = js ''mid'', battery_mah = Num 5000, camera_mp = Num 50,
      rear_camera_details = js ''50MP'', screen_inches = Num 6, display_type = js ''AMOLED'',
      refresh_rate = Num 120, ram_gb = Num 8, storage_gb = Num 128, processor = js ''SoC'',
      fast_charging_w = Num 67, has_5g = True, weight_grams = Num 190, os = js ''Android'',
      key_features = js ''none'', front_camera_mp = Num 16\<rparr>"

definition example_request :: ComparisonRequest where
  "example_request =
     \<lparr>ComparisonRequest.phones =
        [example_phone (js ''p1''), example_phone (js ''p2''), example_phone (js ''p3'')],
      budget = Some (Num 30000), priorities = [js ''battery'', js ''camera''],
      additionalRequirements = None\<rparr>"

definition example_parse :: "jsstring \<Rightarrow> jsstring + json" where
  \<comment> \<open>a parser that knows the example text, whatever white space surrounds it\<close>
  "example_parse s =
     (if str_trim s = example_payload_text then Inr example_payload
      else Inl (js ''Unexpected token''))"

definition example_env :: "(thrown + jsstring) \<Rightarrow> (thrown + jsstring) \<Rightarrow> env" where
  \<comment> \<open>an environment in which the first model answers \<open>first\<close> and the second \<open>second\<close>\<close>
  "example_env first second =
     \<lparr>GEMINI_API_KEY = Some (js ''key''),
      generateContent = (\<lambda>modelName prompt. if modelName = modelsToTry ! 0 then first else second),
      JSON_parse = example_parse,
      zod_message = (\<lambda>issues. js ''Required''),
      build_prompt = (\<lambda>request. js ''prompt'')\<rparr>"

definition example_actions_env :: "(thrown + jsstring) \<Rightarrow> (thrown + jsstring) \<Rightarrow> actions_env" where
  \<comment> \<open>the same environment with a catalog of the three phones\<close>
  "example_actions_env first second =
     \<lparr>GEMINI_API_KEY = Some (js ''key''),
      generateContent = (\<lambda>modelName prompt. if modelName = modelsToTry ! 0 then first else second),
      JSON_parse = example_parse,
      zod_message = (\<lambda>issues. js ''Required''),
      build_prompt = (\<lambda>request. js ''prompt''),
      loadPhonesFromCSV =
        Inr [example_phone (js ''p1''), example_phone (js ''p2''), example_phone (js ''p3'')],
      getPhonesInBudget =
        (\<lambda>b. Inr [example_phone (js ''p1''), example_phone (js ''p2''), example_phone (js ''p3'')]),
      parseFloat = (\<lambda>s. if s = js ''30000'' then Num 30000 else NaN),
      toLocaleString_en_IN = (\<lambda>n. js ''30,000''),
      double_times = (\<lambda>a b. a * b),
      Date_now_start = 1000,
      Date_now_end = 1500\<rparr>"

definition example_form :: FormData where
  "example_form =
     [(js ''budget'', FString (js ''30000'')),
      (js ''priorities'', FString (js ''battery, camera''))]"

section \<open>The fallback loop\<close>

lemma compareAndSelectPhone_loop:
  "credential_set e \<Longrightarrow> ComparisonRequest.phones request \<noteq> [] \<Longrightarrow>
   compareAndSelectPhone e request = try_models e (build_prompt e request) modelsToTry None []"
  by (auto simp: compareAndSelectPhone_def credential_set_def split: option.splits)

lemma str_includes_Nil [simp]: "str_includes s []"
  by (cases s) simp_all



subsection \<open>Facts about the example inputs\<close>

lemma example_credential_set: "credential_set (example_env a b)"
  by (simp add: credential_set_def example_env_def js_def)

lemma example_phones_nonempty: "ComparisonRequest.phones example_request \<noteq> []"
  by (simp add: example_request_def)

lemma example_first_response: "generateContent (example_env a b) (modelsToTry ! 0) p = a"
  by (simp add: example_env_def)

lemma example_second_response: "generateContent (example_env a b) (modelsToTry ! 1) p = b"
  by (simp add: example_env_def modelsToTry_def js_def)

lemma example_JSON_parse: "JSON_parse (example_env a b) = example_parse"
  by (simp add: example_env_def)

lemma example_payload_text_trim: "str_trim example_payload_text = example_payload_text"
  by (simp add: example_payload_text_def str_trim_def is_white_space_def js_def)

lemma example_payload_text_bare: "extract_json example_payload_text = example_payload_text"
  by (simp add: extract_json_def example_payload_text_def fence_def fence_json_def js_def)

lemma example_parse_payload_text: "example_parse example_payload_text = Inr example_payload"
  by (simp add: example_parse_def example_payload_text_trim)

lemma example_parse_malformed: "example_parse (js ''not json'') = Inl (js ''Unexpected token'')"
  by (simp add: example_parse_def example_payload_text_def str_trim_def is_white_space_def js_def)

lemma extract_malformed: "extract_json (js ''not json'') = js ''not json''"
  by (simp add: extract_json_def fence_def fence_json_def js_def)

lemma example_payload_valid:
  "zparse PhoneComparisonSchema [] (Some example_payload) = Inr (Some example_payload)"
  by (simp add: PhoneComparisonSchema_def example_payload_def example_fields_def js_def
      issues_of_def present_def)

section \<open>Properties of the pipeline\<close>

text \<open>
  C2. When the response of the first model yields a payload that parses and passes
  validation, \<open>compareAndSelectPhone\<close> returns that validated result, and the backend
  has been called once, with the first model: the second model is never called.
\<close>

theorem first_candidate_short_circuits:
  assumes "credential_set e" and "ComparisonRequest.phones request \<noteq> []"
    and "generateContent e (modelsToTry ! 0) (build_prompt e request) = Inr raw"
    and "JSON_parse e (extract_json raw) = Inr parsed"
    and "zparse PhoneComparisonSchema [] (Some parsed) = Inr validated"
  shows "compareAndSelectPhone e request = (Inr validated, [modelsToTry ! 0])
         \<and> modelsToTry ! 1 \<notin> set (snd (compareAndSelectPhone e request))"
  using assms by (simp add: compareAndSelectPhone_loop modelsToTry_def attempt_def js_def)

theorem first_candidate_short_circuits_witness:
  "compareAndSelectPhone (example_env (Inr example_payload_text) (Inl NonError)) example_request
     = (Inr (Some example_payload), [js ''gemini-2.0-flash-exp''])"
proof -
  let ?e = "example_env (Inr example_payload_text) (Inl NonError)"
  have 1: "generateContent ?e (modelsToTry ! 0) (build_prompt ?e example_request)
             = Inr example_payload_text"
    by (rule example_first_response)
  have 2: "JSON_parse ?e (extract_json example_payload_text) = Inr example_payload"
    by (simp add: example_JSON_parse example_payload_text_bare example_parse_payload_text)
  from first_candidate_short_circuits[OF example_credential_set example_phones_nonempty 1 2
      example_payload_valid]
  show ?thesis by (simp add: modelsToTry_def)
qed

text \<open>
  C3. When the attempt with the first model fails (the call throws, or the payload does
  not parse, or the parsed value does not pass validation) and the response of the second
  model yields a payload that parses and passes validation, \<open>compareAndSelectPhone\<close>
  returns the result validated from the second model's payload.
\<close>

theorem falls_back_to_second_candidate:
  assumes "credential_set e" and "ComparisonRequest.phones request \<noteq> []"
    and first_fails:
      "(\<exists>err. generateContent e (modelsToTry ! 0) (build_prompt e request) = Inl err)
       \<or> (\<exists>raw. generateContent e (modelsToTry ! 0) (build_prompt e request) = Inr raw
            \<and> ((\<exists>msg. JSON_parse e (extract_json raw) = Inl msg)
               \<or> (\<exists>parsed issues. JSON_parse e (extract_json raw) = Inr parsed
                    \<and> zparse PhoneComparisonSchema [] (Some parsed) = Inl issues)))"
    and "generateContent e (modelsToTry ! 1) (build_prompt e request) = Inr raw2"
    and "JSON_parse e (extract_json raw2) = Inr parsed2"
    and "zparse PhoneComparisonSchema [] (Some parsed2) = Inr validated2"
  shows "compareAndSelectPhone e request = (Inr validated2, [modelsToTry ! 0, modelsToTry ! 1])"
proof -
  from first_fails obtain err
    where "attempt e (build_prompt e request) (modelsToTry ! 0) = Inl err"
    by (auto simp: attempt_def)
  moreover have "attempt e (build_prompt e request) (modelsToTry ! 1) = Inr validated2"
    using assms(4-6) by (simp add: attempt_def)
  ultimately show ?thesis
    using assms(1,2) by (simp add: compareAndSelectPhone_loop modelsToTry_def)
qed

theorem falls_back_to_second_candidate_witness:
  "compareAndSelectPhone (example_env (Inr (js ''not json'')) (Inr example_payload_text))
       example_request
     = (Inr (Some example_payload), [js ''gemini-2.0-flash-exp'', js ''gemini-1.5-flash''])"
proof -
  let ?e = "example_env (Inr (js ''not json'')) (Inr example_payload_text)"
  let ?p = "build_prompt ?e example_request"
  have "generateContent ?e (modelsToTry ! 0) ?p = Inr (js ''not json'')
        \<and> JSON_parse ?e (extract_json (js ''not json'')) = Inl (js ''Unexpected token'')"
    by (simp add: example_first_response extract_malformed example_JSON_parse
        example_parse_malformed)
  then have 1: "(\<exists>err. generateContent ?e (modelsToTry ! 0) ?p = Inl err)
       \<or> (\<exists>raw. generateContent ?e (modelsToTry ! 0) ?p = Inr raw
            \<and> ((\<exists>msg. JSON_parse ?e (extract_json raw) = Inl msg)
               \<or> (\<exists>parsed issues. JSON_parse ?e (extract_json raw) = Inr parsed
                    \<and> zparse PhoneComparisonSchema [] (Some parsed) = Inl issues)))"
    by blast
  have 2: "generateContent ?e (modelsToTry ! 1) ?p = Inr example_payload_text"
    by (rule example_second_response)
  have 3: "JSON_parse ?e (extract_json example_payload_text) = Inr example_payload"
    by (simp add: example_JSON_parse example_payload_text_bare example_parse_payload_text)
  from falls_back_to_second_candidate[OF example_credential_set example_phones_nonempty 1 2 3
      example_payload_valid]
  show ?thesis by (simp add: modelsToTry_def)
qed



text \<open>
  C5. When the phone list of the request is empty, and when the credential is absent
  from the environment, \<open>compareAndSelectPhone\<close> fails with the \<open>Error\<close> of the
  precondition that does not hold (the credential is checked first), and the backend has
  not been called.
\<close>

theorem precondition_failure_before_any_backend_call:
  assumes "ComparisonRequest.phones request = [] \<or> GEMINI_API_KEY e = None"
  shows "compareAndSelectPhone e request =
           (Inl (ErrorObj (if credential_set e then js ''No phones to compare''
                           else js ''GEMINI_API_KEY is not set'')), [])"
  using assms by (auto simp: compareAndSelectPhone_def credential_set_def split: option.splits)

theorem precondition_failure_before_any_backend_call_witness:
  "compareAndSelectPhone (example_env (Inl NonError) (Inl NonError))
       (example_request\<lparr>ComparisonRequest.phones := []\<rparr>)
     = (Inl (ErrorObj (js ''No phones to compare'')), [])
   \<and> compareAndSelectPhone ((example_env (Inl NonError) (Inl NonError))\<lparr>GEMINI_API_KEY := None\<rparr>)
       example_request
     = (Inl (ErrorObj (js ''GEMINI_API_KEY is not set'')), [])"
proof -
  let ?e = "example_env (Inl NonError) (Inl NonError)"
  have 1: "ComparisonRequest.phones (example_request\<lparr>ComparisonRequest.phones := []\<rparr>) = []
           \<or> GEMINI_API_KEY ?e = None"
    by simp
  have 2: "ComparisonRequest.phones example_request = []
           \<or> GEMINI_API_KEY (?e\<lparr>GEMINI_API_KEY := None\<rparr>) = None"
    by simp
  have 3: "\<not> credential_set (?e\<lparr>GEMINI_API_KEY := None\<rparr>)"
    by (simp add: credential_set_def)
  from precondition_failure_before_any_backend_call[OF 1]
    precondition_failure_before_any_backend_call[OF 2]
  show ?thesis by (simp add: example_credential_set 3)
qed

text \<open>
  C10. \<open>compareWithGrounding\<close> succeeds exactly when \<open>compareAndSelectPhone\<close> succeeds on
  the same request, with the same comparison and no sources; it fails exactly when
  \<open>compareAndSelectPhone\<close> fails, with the same error; and the backend calls are the same.
\<close>

theorem compareWithGrounding_is_compareAndSelectPhone:
  "(compareWithGrounding e request = (Inr g, invoked)
      \<longleftrightarrow> compareAndSelectPhone e request = (Inr (GroundedComparison.comparison g), invoked)
          \<and> GroundedComparison.sources g = [])
   \<and> (compareWithGrounding e request = (Inl err, invoked)
      \<longleftrightarrow> compareAndSelectPhone e request = (Inl err, invoked))"
  by (cases "compareAndSelectPhone e request"; cases "fst (compareAndSelectPhone e request)")
     (auto simp: compareWithGrounding_def)

section \<open>Searching and splitting\<close>

lemma indexOf_bound: "indexOf s sep = Some i \<Longrightarrow> i + length sep \<le> length s"
proof (induction s arbitrary: i)
  case Nil
  then show ?case by (simp split: if_splits)
next
  case (Cons c cs)
  then show ?case by (auto split: if_splits dest: prefix_length_le)
qed

lemma str_includes_indexOf: "str_includes s sep \<longleftrightarrow> indexOf s sep \<noteq> None"
  by (induction s) auto

lemma indexOf_Some_iff:
  "indexOf s sep = Some i \<longleftrightarrow>
     i \<le> length s \<and> prefix sep (drop i s) \<and> (\<forall>p<i. \<not> prefix sep (drop p s))"
proof (induction s arbitrary: i)
  case Nil
  show ?case by auto
next
  case (Cons c cs)
  show ?case
  proof (cases "prefix sep (c # cs)")
    case True
    then show ?thesis by (cases i) auto
  next
    case False
    show ?thesis
    proof (cases i)
      case 0
      with False show ?thesis by simp
    next
      case (Suc j)
      have "(\<forall>p<Suc j. \<not> prefix sep (drop p (c # cs))) \<longleftrightarrow> (\<forall>p<j. \<not> prefix sep (drop p cs))"
        using False by (auto simp: less_Suc_eq_0_disj)
      with False Suc Cons.IH[of j] show ?thesis by auto
    qed
  qed
qed

lemma indexOf_None_iff: "indexOf s sep = None \<longleftrightarrow> (\<forall>p\<le>length s. \<not> prefix sep (drop p s))"
proof (induction s)
  case Nil
  show ?case by auto
next
  case (Cons c cs)
  have "(\<forall>p\<le>Suc (length cs). \<not> prefix sep (drop p (c # cs)))
        \<longleftrightarrow> \<not> prefix sep (drop 0 (c # cs)) \<and> (\<forall>p\<le>length cs. \<not> prefix sep (drop (Suc p) (c # cs)))"
    by (simp only: less_Suc_eq_le[symmetric] All_less_Suc2)
  with Cons show ?case by auto
qed

lemma str_split_head:
  "sep \<noteq> [] \<Longrightarrow> at_index (str_split s sep) 0 = Some (up_to s sep)"
  by (subst str_split.simps) (simp add: at_index_def up_to_def split: option.splits)

lemma str_split_second:
  assumes "sep \<noteq> []" and "str_includes s sep"
  shows "at_index (str_split s sep) 1 = Some (up_to (after_first s sep) sep)"
proof -
  from assms(2) obtain i where i: "indexOf s sep = Some i"
    by (auto simp: str_includes_indexOf)
  have "str_split s sep = take i s # str_split (drop (i + length sep) s) sep"
    using assms(1) i by (subst str_split.simps) simp
  moreover have "at_index (x # xs) 1 = at_index xs 0" for x :: "'a list" and xs
    by (simp add: at_index_def)
  ultimately show ?thesis
    using str_split_head[OF assms(1)] i by (simp add: after_first_def)
qed

lemma up_to_idem: "sep \<noteq> [] \<Longrightarrow> up_to (up_to s sep) sep = up_to s sep"
proof (cases "indexOf s sep")
  case None
  then show ?thesis by (simp add: up_to_def)
next
  case (Some i)
  assume sep: "sep \<noteq> []"
  have "indexOf (take i s) sep = None"
    unfolding indexOf_None_iff
  proof (intro allI impI notI)
    fix p
    assume p: "p \<le> length (take i s)" and pre: "prefix sep (drop p (take i s))"
    from Some have bound: "i \<le> length s" and first: "\<forall>q<i. \<not> prefix sep (drop q s)"
      by (auto simp: indexOf_Some_iff)
    have "prefix (drop p (take i s)) (drop p s)"
      by (metis append_take_drop_id drop_append prefixI)
    with pre have "prefix sep (drop p s)" by (rule prefix_order.trans)
    with first have "\<not> p < i" by blast
    with p bound have "drop p (take i s) = []" by simp
    with pre sep show False by simp
  qed
  with Some show ?thesis by (simp add: up_to_def)
qed

lemma fence_nonempty: "fence \<noteq> []" "fence_json \<noteq> []"
  by (simp_all add: fence_def fence_json_def js_def)

lemma fenced_part_json:
  "str_includes raw fence_json \<Longrightarrow>
   fenced_part raw fence_json
     = Some (str_trim (up_to (up_to (after_first raw fence_json) fence_json) fence))"
  using str_split_second[of fence_json raw]
  by (simp add: fenced_part_def str_split_head fence_nonempty)

lemma fenced_part_fence:
  "str_includes raw fence \<Longrightarrow>
   fenced_part raw fence = Some (str_trim (up_to (after_first raw fence) fence))"
  using str_split_second[of fence raw]
  by (simp add: fenced_part_def str_split_head fence_nonempty up_to_idem)

text \<open>
  The payload by positions: what follows the first JSON marker, cut at the next JSON
  marker and then at the first fence; or else what stands between the first fence and
  the next one; without the white space around it, and the entire text when that is empty.
\<close>

lemma extract_json_by_position:
  "extract_json raw =
     (if str_includes raw fence_json then
        (let body = str_trim (up_to (up_to (after_first raw fence_json) fence_json) fence)
         in if body = [] then raw else body)
      else if str_includes raw fence then
        (let body = str_trim (up_to (after_first raw fence) fence)
         in if body = [] then raw else body)
      else raw)"
  by (simp add: extract_json_def fenced_part_json fenced_part_fence or_default_def Let_def)

section \<open>Bare and fenced JSON\<close>

lemma prefix_appendD: "prefix (a @ b) s \<Longrightarrow> prefix a s"
  by (auto simp: prefix_def)

lemma str_includes_appendD: "str_includes s (a @ b) \<Longrightarrow> str_includes s a"
proof (induction s)
  case Nil
  then show ?case by simp
next
  case (Cons c cs)
  then show ?case by (auto dest: prefix_appendD)
qed

lemma fence_json_split: "fence_json = fence @ js ''json''"
  by (simp add: fence_def fence_json_def js_def)

lemma no_fence_no_fence_json: "\<not> str_includes s fence \<Longrightarrow> \<not> str_includes s fence_json"
  unfolding fence_json_split by (blast dest: str_includes_appendD)

lemma extract_json_bare: "\<not> str_includes s fence \<Longrightarrow> extract_json s = s"
  by (simp add: extract_json_def no_fence_no_fence_json)

lemma str_includes_iff: "str_includes s sep \<longleftrightarrow> (\<exists>p\<le>length s. prefix sep (drop p s))"
  using indexOf_None_iff[of s sep] by (auto simp: str_includes_indexOf)

lemma prefix_across:
  assumes "prefix sep (u @ c # w)" and "c \<notin> set sep"
  shows "prefix sep u"
proof -
  from assms(1) consider "prefix sep u" | us where "sep = u @ us" "prefix us (c # w)"
    by (auto simp: prefix_append)
  then show ?thesis
  proof cases
    case 1
    then show ?thesis .
  next
    case 2
    with assms(2) have "us = []" by (cases us) auto
    with 2 show ?thesis by simp
  qed
qed

lemma line_feed_not_in_fence: "(0x0A :: code_unit) \<notin> set fence"
  by (simp add: fence_def js_def)

lemma indexOf_closing_fence:
  assumes "\<not> str_includes s fence"
  shows "indexOf (0x0A # s @ 0x0A # fence) fence = Some (length s + 2)"
proof -
  let ?rest = "0x0A # s @ 0x0A # fence"
  have "\<not> prefix fence (drop p ?rest)" if p: "p < length s + 2" for p
  proof
    assume pre: "prefix fence (drop p ?rest)"
    show False
    proof (cases p)
      case 0
      with pre have "prefix fence ([] @ 0x0A # s @ 0x0A # fence)" by simp
      from prefix_across[OF this line_feed_not_in_fence] fence_nonempty(1) show False by simp
    next
      case (Suc q)
      with p have q: "q \<le> length s" by simp
      with pre Suc have "prefix fence (drop q s @ 0x0A # fence)" by simp
      from prefix_across[OF this line_feed_not_in_fence] q assms show False
        by (auto simp: str_includes_iff)
    qed
  qed
  moreover have "prefix fence (drop (length s + 2) ?rest)" by simp
  moreover have "length s + 2 \<le> length ?rest" by simp
  ultimately show ?thesis unfolding indexOf_Some_iff by blast
qed

lemma wrapped_after_marker:
  "after_first (wrap_in_json_fence s) fence_json = 0x0A # s @ 0x0A # fence"
proof -
  have "indexOf (wrap_in_json_fence s) fence_json = Some 0"
    by (simp add: indexOf_Some_iff wrap_in_json_fence_def)
  then show ?thesis by (simp add: after_first_def wrap_in_json_fence_def)
qed

lemma wrapped_no_second_marker:
  assumes "\<not> str_includes s fence"
  shows "indexOf (0x0A # s @ 0x0A # fence) fence_json = None"
proof (rule ccontr)
  let ?rest = "0x0A # s @ 0x0A # fence"
  assume "indexOf ?rest fence_json \<noteq> None"
  then obtain j where j: "indexOf ?rest fence_json = Some j" by auto
  then have "prefix fence (drop j ?rest)"
    unfolding indexOf_Some_iff fence_json_split by (blast dest: prefix_appendD)
  moreover from indexOf_closing_fence[OF assms, unfolded indexOf_Some_iff]
  have "\<forall>p<length s + 2. \<not> prefix fence (drop p ?rest)" by blast
  ultimately have "\<not> j < length s + 2" by blast
  moreover from indexOf_bound[OF j] have "j + length fence_json \<le> length s + 2 + length fence"
    by simp
  moreover have "length fence < length fence_json"
    by (simp add: fence_def fence_json_def js_def)
  ultimately show False by simp
qed

lemma line_feed_white_space: "is_white_space 0x0A"
  by (simp add: is_white_space_def)

lemma str_trim_lines: "str_trim (0x0A # s @ [0x0A]) = str_trim s"
proof (cases "\<forall>c\<in>set s. is_white_space c")
  case True
  then have 1: "dropWhile is_white_space s = []"
    and 2: "dropWhile is_white_space (0x0A # s @ [0x0A]) = []"
    by (simp_all add: line_feed_white_space)
  show ?thesis unfolding str_trim_def 1 2 by (rule refl)
next
  case False
  then have "dropWhile is_white_space (s @ [0x0A]) = dropWhile is_white_space s @ [0x0A]"
    by (simp add: dropWhile_append)
  then show ?thesis by (simp add: str_trim_def line_feed_white_space)
qed

lemma extract_json_wrapped:
  assumes "\<not> str_includes s fence"
  shows "extract_json (wrap_in_json_fence s)
           = (if str_trim s = [] then wrap_in_json_fence s else str_trim s)"
proof -
  have "str_includes (wrap_in_json_fence s) fence_json"
    by (simp add: str_includes_iff wrap_in_json_fence_def) (rule exI[of _ 0], simp)
  moreover have "up_to (0x0A # s @ 0x0A # fence) fence_json = 0x0A # s @ 0x0A # fence"
    unfolding up_to_def wrapped_no_second_marker[OF assms] by simp
  moreover have "up_to (0x0A # s @ 0x0A # fence) fence = 0x0A # s @ [0x0A]"
    unfolding up_to_def indexOf_closing_fence[OF assms] by simp
  ultimately show ?thesis
    by (simp add: extract_json_by_position wrapped_after_marker str_trim_lines)
qed

text \<open>
  C7. Let \<open>s\<close> be a text that \<open>JSON.parse\<close> accepts and that contains no fence, and
  let \<open>JSON.parse\<close> disregard the white space around a JSON text, as the grammar has
  it. Then the payload extracted from \<open>s\<close> and the payload extracted from \<open>s\<close> put
  in a block labelled as JSON parse to the same value.
\<close>

theorem bare_and_fenced_json_parse_alike:
  assumes "tolerates_outer_white_space (JSON_parse e)"
    and "JSON_parse e s = Inr v"
    and "\<not> str_includes s fence"
  shows "JSON_parse e (extract_json s) = Inr v
         \<and> JSON_parse e (extract_json (wrap_in_json_fence s)) = Inr v"
proof -
  from assms(1,2) have trimmed: "JSON_parse e (str_trim s) = Inr v"
    by (simp add: tolerates_outer_white_space_def)
  from assms(1) have "isl (JSON_parse e [])"
    by (simp add: tolerates_outer_white_space_def)
  with trimmed have "str_trim s \<noteq> []" by auto
  with trimmed assms(2,3) show ?thesis
    by (simp add: extract_json_bare extract_json_wrapped)
qed

lemma str_trim_idem: "str_trim (str_trim s) = str_trim s"
proof -
  let ?t = "dropWhile is_white_space s"
  let ?u = "rev (dropWhile is_white_space (rev ?t))"
  have right: "dropWhile is_white_space (rev ?u) = rev ?u"
    by simp
  have "dropWhile is_white_space ?u = ?u"
  proof (cases "?u = []")
    case True
    then show ?thesis by (metis dropWhile.simps(1))
  next
    case False
    have "?t = ?u @ rev (takeWhile is_white_space (rev ?t))"
      by (metis rev_append rev_rev_ident takeWhile_dropWhile_id)
    with False have "hd ?u = hd ?t" by (metis hd_append2)
    moreover from False have "?t \<noteq> []" by (metis dropWhile.simps(1) rev.simps(1))
    then have "\<not> is_white_space (hd ?t)" by (simp add: hd_dropWhile)
    ultimately show ?thesis by (simp add: dropWhile_eq_self_iff)
  qed
  with right show ?thesis by (simp add: str_trim_def)
qed

lemma example_parse_tolerant: "tolerates_outer_white_space example_parse"
proof -
  have "str_trim [] \<noteq> example_payload_text"
    by (simp add: str_trim_def example_payload_text_def js_def)
  then have "isl (example_parse [])"
    by (simp add: example_parse_def)
  moreover have "example_parse (str_trim s) = example_parse s" for s
    by (simp add: example_parse_def str_trim_idem)
  ultimately show ?thesis
    by (simp add: tolerates_outer_white_space_def)
qed

lemma example_payload_text_no_fence: "\<not> str_includes (example_payload_text @ [0x0A]) fence"
  by (simp add: example_payload_text_def fence_def js_def)

lemma example_payload_text_line: "str_trim (example_payload_text @ [0x0A]) = example_payload_text"
  by (simp add: example_payload_text_def str_trim_def is_white_space_def js_def)

theorem bare_and_fenced_json_parse_alike_witness:
  "example_parse (extract_json (example_payload_text @ [0x0A])) = Inr example_payload
   \<and> example_parse (extract_json (wrap_in_json_fence (example_payload_text @ [0x0A])))
       = Inr example_payload"
proof -
  let ?e = "example_env (Inl NonError) (Inl NonError)"
  have 1: "tolerates_outer_white_space (JSON_parse ?e)"
    by (simp add: example_JSON_parse example_parse_tolerant)
  have 2: "JSON_parse ?e (example_payload_text @ [0x0A]) = Inr example_payload"
    by (simp add: example_JSON_parse example_parse_def example_payload_text_line)
  from bare_and_fenced_json_parse_alike[OF 1 2 example_payload_text_no_fence]
  show ?thesis by (simp add: example_JSON_parse)
qed

section \<open>Fenced blocks\<close>















text \<open>
  Outside these shapes the result need not be the contents of a block: a label other
  than \<open>json\<close> stays in the payload, and so does a backtick that stands right before a
  second JSON marker.
\<close>

lemma other_label_kept:
  "extract_json (js ''```js'' @ [0x0A] @ js ''{}'' @ [0x0A] @ js ''```'')
     = js ''js'' @ [0x0A] @ js ''{}''"
  by (simp add: extract_json_by_position up_to_def after_first_def str_trim_def
      is_white_space_def fence_def fence_json_def js_def)

lemma backtick_before_second_marker_kept:
  "extract_json (js ''```json {}````json x```'') = js ''{}`''"
  by (simp add: extract_json_by_position up_to_def after_first_def str_trim_def
      is_white_space_def fence_def fence_json_def js_def)

section \<open>The validator\<close>

lemma zparse_Inl_nonempty: "zparse s p v = Inl es \<Longrightarrow> es \<noteq> []"
proof (induction s p v arbitrary: es rule: zparse.induct)
  case (1 p v)
  then show ?case by (auto split: option.splits json.splits)
next
  case (2 p v)
  then show ?case by (auto split: option.splits json.splits)
next
  case (3 s p v)
  then show ?case by (auto split: option.splits)
next
  case (4 s p v)
  then show ?case by (auto split: option.splits json.splits)
next
  case (5 shape p v)
  from "5.prems" show ?case
    by (auto simp: Let_def split: option.splits json.splits if_splits)
next
  case (6 s p v)
  from "6.prems" show ?case
    by (auto simp: Let_def split: option.splits json.splits if_splits)
next
  case (7 ks vs p v)
  from "7.prems" show ?case
    by (auto simp: Let_def split: option.splits json.splits if_splits)
next
  case (8 ss p v)
  from "8.prems" show ?case
    by (auto split: list.splits dest: filter_eq_ConsD)
qed

lemma issues_of_Nil_iff:
  "issues_of rs = [] \<longleftrightarrow> (\<forall>r\<in>set rs. \<forall>es. r = Inl es \<longrightarrow> es = [])"
  by (auto simp: issues_of_def split: sum.splits)

lemma issues_of_zparse_Nil_iff:
  assumes "\<forall>r\<in>set rs. \<exists>s p v. r = zparse s p v"
  shows "issues_of rs = [] \<longleftrightarrow> (\<forall>r\<in>set rs. \<not> isl r)"
proof
  assume "issues_of rs = []"
  with assms show "\<forall>r\<in>set rs. \<not> isl r"
    unfolding issues_of_Nil_iff by (metis isl_def zparse_Inl_nonempty)
next
  assume "\<forall>r\<in>set rs. \<not> isl r"
  then show "issues_of rs = []"
    unfolding issues_of_Nil_iff by (metis isl_def)
qed

lemma zparse_ZObject_isl:
  "isl (zparse (ZObject shape) p (Some (JObj kvs)))
     \<longleftrightarrow> (\<exists>(k, s)\<in>set shape. isl (zparse s (p @ [Key k]) (map_of kvs k)))"
proof -
  let ?rs = "map (\<lambda>(k, s). zparse s (p @ [Key k]) (map_of kvs k)) shape"
  have eq: "map (snd \<circ> (\<lambda>(k, s). (k, zparse s (p @ [Key k]) (map_of kvs k)))) shape = ?rs"
    by (simp add: case_prod_unfold)
  have 1: "isl (zparse (ZObject shape) p (Some (JObj kvs))) \<longleftrightarrow> issues_of ?rs \<noteq> []"
    by (simp add: Let_def eq)
  have 2: "issues_of ?rs = [] \<longleftrightarrow> (\<forall>r\<in>set ?rs. \<not> isl r)"
    by (rule issues_of_zparse_Nil_iff) auto
  have 3: "(\<exists>r\<in>set ?rs. isl r)
     \<longleftrightarrow> (\<exists>(k, s)\<in>set shape. isl (zparse s (p @ [Key k]) (map_of kvs k)))"
    by (force simp: case_prod_unfold)
  from 1 2 3 show ?thesis by blast
qed

lemma zparse_ZObject_not_object:
  "\<forall>kvs. v \<noteq> Some (JObj kvs) \<Longrightarrow> isl (zparse (ZObject shape) p v)"
  by (auto split: option.splits json.splits)

lemma set_enumerate_0: "set (enumerate 0 xs) = {(i, xs ! i) | i. i < length xs}"
  by (auto simp: in_set_enumerate_eq)

lemma zparse_ZArray_isl:
  "isl (zparse (ZArray s) p (Some (JArr xs)))
     \<longleftrightarrow> (\<exists>i<length xs. isl (zparse s (p @ [Index i]) (Some (xs ! i))))"
proof -
  let ?rs = "map (\<lambda>(i, x). zparse s (p @ [Index i]) (Some x)) (enumerate 0 xs)"
  have "isl (zparse (ZArray s) p (Some (JArr xs))) \<longleftrightarrow> issues_of ?rs \<noteq> []"
    by (simp add: Let_def)
  also have "issues_of ?rs = [] \<longleftrightarrow> (\<forall>r\<in>set ?rs. \<not> isl r)"
    by (rule issues_of_zparse_Nil_iff) auto
  finally show ?thesis
    unfolding set_map set_enumerate_0 by auto
qed

lemma zparse_ZRecord_isl:
  "isl (zparse (ZRecord ks vs) p (Some (JObj kvs)))
     \<longleftrightarrow> (\<exists>(k, x)\<in>set kvs. isl (zparse ks (p @ [Key k]) (Some (JStr k)))
                           \<or> isl (zparse vs (p @ [Key k]) (Some x)))"
proof -
  let ?rs = "map (\<lambda>(k, x). (k, zparse ks (p @ [Key k]) (Some (JStr k)),
                              zparse vs (p @ [Key k]) (Some x))) kvs"
  have 1: "issues_of (map (fst \<circ> snd) ?rs) = [] \<longleftrightarrow> (\<forall>r\<in>set (map (fst \<circ> snd) ?rs). \<not> isl r)"
    by (rule issues_of_zparse_Nil_iff) (auto, blast+)
  have 2: "issues_of (map (snd \<circ> snd) ?rs) = [] \<longleftrightarrow> (\<forall>r\<in>set (map (snd \<circ> snd) ?rs). \<not> isl r)"
    by (rule issues_of_zparse_Nil_iff) (auto, blast+)
  have "isl (zparse (ZRecord ks vs) p (Some (JObj kvs)))
     \<longleftrightarrow> \<not> (issues_of (map (fst \<circ> snd) ?rs) = [] \<and> issues_of (map (snd \<circ> snd) ?rs) = [])"
    by (simp add: Let_def)
  also have "\<dots> \<longleftrightarrow> (\<exists>(k, x)\<in>set kvs. isl (zparse ks (p @ [Key k]) (Some (JStr k)))
                           \<or> isl (zparse vs (p @ [Key k]) (Some x)))"
    unfolding 1 2 by (auto simp: case_prod_unfold)
  finally show ?thesis .
qed

lemma zparse_defined: "zparse s p (Some x) = Inr r \<Longrightarrow> r \<noteq> None"
proof (induction s p "Some x" arbitrary: r rule: zparse.induct)
  case (1 p)
  then show ?case by (auto split: json.splits)
next
  case (2 p)
  then show ?case by (auto split: json.splits)
next
  case (3 s p)
  then show ?case by simp
next
  case (4 s p)
  then show ?case by (auto split: json.splits)
next
  case (5 shape p)
  from "5.prems" show ?case
    by (auto simp: Let_def split: json.splits if_splits)
next
  case (6 s p)
  from "6.prems" show ?case
    by (auto simp: Let_def split: json.splits if_splits)
next
  case (7 ks vs p)
  from "7.prems" show ?case
    by (auto simp: Let_def split: json.splits if_splits)
next
  case (8 ss p)
  from "8.prems" obtain rs where "filter (\<lambda>r. \<not> isl r) (map (\<lambda>s. zparse s p (Some x)) ss) = Inr r # rs"
    by (auto split: list.splits)
  then have "Inr r \<in> set (filter (\<lambda>r. \<not> isl r) (map (\<lambda>s. zparse s p (Some x)) ss))"
    by simp
  then have "Inr r \<in> set (map (\<lambda>s. zparse s p (Some x)) ss)"
    by simp
  then obtain s where "s \<in> set ss" "zparse s p (Some x) = Inr r" by auto
  with "8.hyps" show ?case by blast
qed

lemma field_rejected:
  assumes "map_of shape k = Some s" and "isl (zparse s (p @ [Key k]) (map_of kvs k))"
  shows "isl (zparse (ZObject shape) p (Some (JObj kvs)))"
  unfolding zparse_ZObject_isl using assms by (auto dest: map_of_SomeD)

lemma element_rejected:
  assumes "i < length xs" and "isl (zparse s (p @ [Index i]) (Some (xs ! i)))"
  shows "isl (zparse (ZArray s) p (Some (JArr xs)))"
  unfolding zparse_ZArray_isl using assms by blast

lemma entry_rejected:
  assumes "(k, x) \<in> set kvs" and "isl (zparse vs (p @ [Key k]) (Some x))"
  shows "isl (zparse (ZRecord ks vs) p (Some (JObj kvs)))"
  unfolding zparse_ZRecord_isl using assms by blast

lemma missing_required_field_rejected:
  assumes "k \<in> {js ''selected_phone'', js ''all_phones_evaluated'', js ''tradeoff_analysis'',
                js ''specification_comparison'', js ''budget_analysis'', js ''summary''}"
    and "map_of kvs k = None"
  shows "isl (zparse PhoneComparisonSchema p (Some (JObj kvs)))"
proof -
  have "\<exists>s. map_of (case PhoneComparisonSchema of ZObject shape \<Rightarrow> shape) k = Some s
            \<and> isl (zparse s (p @ [Key k]) None)"
    using assms(1) by (auto simp: PhoneComparisonSchema_def js_def)
  then obtain s where "map_of (case PhoneComparisonSchema of ZObject shape \<Rightarrow> shape) k = Some s"
    and "isl (zparse s (p @ [Key k]) (map_of kvs k))"
    using assms(2) by auto
  from field_rejected[OF this] show ?thesis
    by (simp add: PhoneComparisonSchema_def del: zparse.simps)
qed

lemma string_price_rejected:
  assumes "map_of kvs (js ''all_phones_evaluated'') = Some (JArr xs)"
    and "i < length xs" and "xs ! i = JObj item"
    and "map_of item (js ''price_inr'') = Some (JStr t)"
  shows "isl (zparse PhoneComparisonSchema p (Some (JObj kvs)))"
proof -
  let ?evaluated = "ZObject
         [(js ''phone_id'', ZString),
          (js ''phone_name'', ZString),
          (js ''price_inr'', ZNumber),
          (js ''key_strengths'', ZArray ZString),
          (js ''key_weaknesses'', ZArray ZString),
          (js ''score_by_priority'', ZRecord ZString ZNumber)]"
  have "isl (zparse ZNumber q (map_of item (js ''price_inr'')))" for q
    unfolding assms(4) by simp
  then have "isl (zparse ?evaluated q (Some (xs ! i)))" for q
    unfolding assms(3)
    by (rule field_rejected[where k = "js ''price_inr''", rotated]) (simp add: js_def)
  then have "isl (zparse (ZArray ?evaluated) q (map_of kvs (js ''all_phones_evaluated'')))" for q
    unfolding assms(1) by (rule element_rejected[OF assms(2)])
  then show ?thesis
    unfolding PhoneComparisonSchema_def
    by (rule field_rejected[where k = "js ''all_phones_evaluated''", rotated]) (simp add: js_def)
qed

lemma string_score_rejected:
  assumes "map_of kvs (js ''all_phones_evaluated'') = Some (JArr xs)"
    and "i < length xs" and "xs ! i = JObj item"
    and "map_of item (js ''score_by_priority'') = Some (JObj scores)"
    and "(priority, JStr t) \<in> set scores"
  shows "isl (zparse PhoneComparisonSchema p (Some (JObj kvs)))"
proof -
  let ?evaluated = "ZObject
         [(js ''phone_id'', ZString),
          (js ''phone_name'', ZString),
          (js ''price_inr'', ZNumber),
          (js ''key_strengths'', ZArray ZString),
          (js ''key_weaknesses'', ZArray ZString),
          (js ''score_by_priority'', ZRecord ZString ZNumber)]"
  have "isl (zparse (ZRecord ZString ZNumber) q (map_of item (js ''score_by_priority'')))" for q
    unfolding assms(4) by (rule entry_rejected[OF assms(5)]) simp
  then have "isl (zparse ?evaluated q (Some (xs ! i)))" for q
    unfolding assms(3)
    by (rule field_rejected[where k = "js ''score_by_priority''", rotated]) (simp add: js_def)
  then have "isl (zparse (ZArray ?evaluated) q (map_of kvs (js ''all_phones_evaluated'')))" for q
    unfolding assms(1) by (rule element_rejected[OF assms(2)])
  then show ?thesis
    unfolding PhoneComparisonSchema_def
    by (rule field_rejected[where k = "js ''all_phones_evaluated''", rotated]) (simp add: js_def)
qed

lemma string_selected_price_rejected:
  assumes "map_of kvs (js ''budget_analysis'') = Some (JObj b)"
    and "map_of b (js ''selected_phone_price'') = Some (JStr t)"
  shows "isl (zparse PhoneComparisonSchema p (Some (JObj kvs)))"
proof -
  let ?budget = "ZObject
         [(js ''selected_phone_price'', ZNumber),
          (js ''price_range'', ZString),
          (js ''value_for_money_explanation'', ZString),
          (js ''alternative_if_budget_increases'', ZOptional (ZNullable ZString)),
          (js ''alternative_if_budget_decreases'', ZOptional (ZNullable ZString))]"
  have "isl (zparse ZNumber q (map_of b (js ''selected_phone_price'')))" for q
    unfolding assms(2) by simp
  then have "isl (zparse ?budget q (map_of kvs (js ''budget_analysis'')))" for q
    unfolding assms(1)
    by (rule field_rejected[where k = "js ''selected_phone_price''", rotated]) (simp add: js_def)
  then show ?thesis
    unfolding PhoneComparisonSchema_def
    by (rule field_rejected[where k = "js ''budget_analysis''", rotated]) (simp add: js_def)
qed

subsection \<open>Leaving the optional fields out\<close>

lemma map_of_delete_key:
  "map_of (delete_key k kvs) k' = (if k' = k then None else map_of kvs k')"
  by (induction kvs) (auto simp: delete_key_def)

lemma map_of_map_values:
  "map_of (map (\<lambda>(k, v). (k, f k v)) kvs) k = map_option (f k) (map_of kvs k)"
  by (induction kvs) auto

lemma omit_optional_fields_alt:
  "omit_optional_fields kvs =
     map (\<lambda>(k, v). (k, if k = js ''budget_analysis''
            then (case v of
                       JObj b \<Rightarrow> JObj (delete_key (js ''alternative_if_budget_increases'')
                                         (delete_key (js ''alternative_if_budget_decreases'') b))
                     | _ \<Rightarrow> v)
            else v))
         (delete_key (js ''runner_up'') kvs)"
  unfolding omit_optional_fields_def by (rule map_cong) auto

lemma map_of_omit_optional_fields:
  "map_of (omit_optional_fields kvs) k =
     (if k = js ''runner_up'' then None
      else if k = js ''budget_analysis''
      then map_option (\<lambda>v. case v of
                 JObj b \<Rightarrow> JObj (delete_key (js ''alternative_if_budget_increases'')
                                   (delete_key (js ''alternative_if_budget_decreases'') b))
               | _ \<Rightarrow> v) (map_of kvs k)
      else map_of kvs k)"
  unfolding omit_optional_fields_alt map_of_map_values map_of_delete_key
  by (simp add: option.map_ident)

lemma budget_analysis_without_alternatives:
  fixes v :: "json option"
  defines "strip \<equiv> map_option (\<lambda>v. case v of
                 JObj b \<Rightarrow> JObj (delete_key (js ''alternative_if_budget_increases'')
                                   (delete_key (js ''alternative_if_budget_decreases'') b))
               | _ \<Rightarrow> v)"
  assumes "\<not> isl (zparse (ZObject
         [(js ''selected_phone_price'', ZNumber),
          (js ''price_range'', ZString),
          (js ''value_for_money_explanation'', ZString),
          (js ''alternative_if_budget_increases'', ZOptional (ZNullable ZString)),
          (js ''alternative_if_budget_decreases'', ZOptional (ZNullable ZString))]) p v)"
  shows "\<not> isl (zparse (ZObject
         [(js ''selected_phone_price'', ZNumber),
          (js ''price_range'', ZString),
          (js ''value_for_money_explanation'', ZString),
          (js ''alternative_if_budget_increases'', ZOptional (ZNullable ZString)),
          (js ''alternative_if_budget_decreases'', ZOptional (ZNullable ZString))]) p (strip v))"
proof -
  from assms(2) obtain b where v: "v = Some (JObj b)"
    using zparse_ZObject_not_object by blast
  have keys: "js ''selected_phone_price'' \<noteq> js ''alternative_if_budget_increases''"
    "js ''selected_phone_price'' \<noteq> js ''alternative_if_budget_decreases''"
    "js ''price_range'' \<noteq> js ''alternative_if_budget_increases''"
    "js ''price_range'' \<noteq> js ''alternative_if_budget_decreases''"
    "js ''value_for_money_explanation'' \<noteq> js ''alternative_if_budget_increases''"
    "js ''value_for_money_explanation'' \<noteq> js ''alternative_if_budget_decreases''"
    by (simp_all add: js_def)
  have none: "\<not> isl (zparse (ZOptional (ZNullable ZString)) q None)" for q
    by simp
  from assms(2) show ?thesis
    unfolding strip_def v option.map json.case zparse_ZObject_isl
    by (simp add: map_of_delete_key keys none del: zparse.simps)
qed

lemma optional_fields_may_be_omitted:
  assumes "\<not> isl (zparse PhoneComparisonSchema p (Some (JObj kvs)))"
  shows "\<not> isl (zparse PhoneComparisonSchema p (Some (JObj (omit_optional_fields kvs))))"
proof -
  have keys: "js ''selected_phone'' \<noteq> js ''runner_up''" "js ''selected_phone'' \<noteq> js ''budget_analysis''"
    "js ''all_phones_evaluated'' \<noteq> js ''runner_up''" "js ''all_phones_evaluated'' \<noteq> js ''budget_analysis''"
    "js ''tradeoff_analysis'' \<noteq> js ''runner_up''" "js ''tradeoff_analysis'' \<noteq> js ''budget_analysis''"
    "js ''specification_comparison'' \<noteq> js ''runner_up''" "js ''specification_comparison'' \<noteq> js ''budget_analysis''"
    "js ''summary'' \<noteq> js ''runner_up''" "js ''summary'' \<noteq> js ''budget_analysis''"
    "js ''budget_analysis'' \<noteq> js ''runner_up''"
    by (simp_all add: js_def)
  have none: "\<not> isl (zparse (ZOptional s) q None)" for s q
    by simp
  from assms show ?thesis
    unfolding PhoneComparisonSchema_def zparse_ZObject_isl
    by (simp add: map_of_omit_optional_fields keys budget_analysis_without_alternatives none
        del: zparse.simps)
qed

subsection \<open>What a validated value holds\<close>

lemma map_of_present:
  assumes "distinct (map fst shape)" and "(k, s) \<in> set shape"
  shows "map_of (concat (map (\<lambda>(k, r). map (Pair k) (present r))
                      (map (\<lambda>(k, s). (k, F k s)) shape))) k
         = (case F k s of Inr x \<Rightarrow> x | Inl _ \<Rightarrow> None)"
  using assms
proof (induction shape)
  case Nil
  then show ?case by simp
next
  case (Cons a shape)
  obtain k' s' where a: "a = (k', s')" by (cases a)
  let ?rest = "concat (map (\<lambda>(k, r). map (Pair k) (present r)) (map (\<lambda>(k, s). (k, F k s)) shape))"
  have keys: "fst ` set ?rest \<subseteq> fst ` set shape"
    by (auto simp: present_def split: sum.splits option.splits) force
  show ?case
  proof (cases "k = k'")
    case True
    with Cons.prems a have s: "s = s'" and "k \<notin> fst ` set shape"
      by (auto simp: rev_image_eqI)
    with keys have "k \<notin> fst ` set ?rest" by blast
    then have "map_of ?rest k = None"
      by (rule iffD2[OF map_of_eq_None_iff])
    with True s a show ?thesis
      by (auto simp: present_def map_add_def split: sum.splits option.splits)
  next
    case False
    with Cons.prems a have "(k, s) \<in> set shape" "distinct (map fst shape)" by auto
    from Cons.IH[OF this(2,1)] False a show ?thesis
      by (auto simp: present_def map_add_def split: sum.splits option.splits)
  qed
qed

lemma zparse_ZObject_property:
  assumes "zparse (ZObject shape) p v = Inr r"
    and "distinct (map fst shape)" and "(k, s) \<in> set shape"
  shows "\<exists>kvs. v = Some (JObj kvs)
           \<and> zparse s (p @ [Key k]) (map_of kvs k) = Inr (get_property r k)"
proof -
  from assms(1) obtain kvs where v: "v = Some (JObj kvs)"
    using zparse_ZObject_not_object[of v shape p] by auto
  from assms(1) have "\<not> isl (zparse (ZObject shape) p (Some (JObj kvs)))"
    by (simp add: v del: zparse.simps)
  with assms(3) obtain x where x: "zparse s (p @ [Key k]) (map_of kvs k) = Inr x"
    unfolding zparse_ZObject_isl by (cases "zparse s (p @ [Key k]) (map_of kvs k)") auto
  from assms(1) have "r = Some (JObj (concat (map (\<lambda>(k, r). map (Pair k) (present r))
       (map (\<lambda>(k, s). (k, zparse s (p @ [Key k]) (map_of kvs k))) shape))))"
    by (auto simp: v Let_def split: if_splits)
  with map_of_present[OF assms(2,3), of "\<lambda>k s. zparse s (p @ [Key k]) (map_of kvs k)"] x
  have "get_property r k = x"
    by (simp add: get_property_def)
  with v x show ?thesis by simp
qed

lemma zparse_ZString_Inr:
  "zparse ZString p v = Inr x \<Longrightarrow> x = v \<and> (\<exists>t. v = Some (JStr t))"
  by (auto split: option.splits json.splits)

lemma concat_present:
  "\<forall>r\<in>set rs. \<exists>y. r = Inr (Some y) \<Longrightarrow>
   concat (map present rs) = map (\<lambda>r. the (projr r)) rs"
  by (induction rs) (auto simp: present_def)

lemma zparse_ZArray_Inr:
  assumes "zparse (ZArray s) p v = Inr r"
  shows "\<exists>xs ys. v = Some (JArr xs) \<and> r = Some (JArr ys) \<and> length ys = length xs
           \<and> (\<forall>i<length xs. zparse s (p @ [Index i]) (Some (xs ! i)) = Inr (Some (ys ! i)))"
proof -
  from assms obtain xs where v: "v = Some (JArr xs)"
    by (auto split: option.splits json.splits)
  let ?rs = "map (\<lambda>(i, x). zparse s (p @ [Index i]) (Some x)) (enumerate 0 xs)"
  from assms have "\<not> isl (zparse (ZArray s) p (Some (JArr xs)))"
    by (simp add: v del: zparse.simps)
  then have ok: "\<forall>i<length xs. \<not> isl (zparse s (p @ [Index i]) (Some (xs ! i)))"
    unfolding zparse_ZArray_isl by blast
  have each: "\<exists>y. zparse s (p @ [Index i]) (Some (xs ! i)) = Inr (Some y)" if "i < length xs" for i
  proof (cases "zparse s (p @ [Index i]) (Some (xs ! i))")
    case (Inl es)
    with ok that show ?thesis by auto
  next
    case (Inr y)
    with zparse_defined[OF this] show ?thesis by auto
  qed
  then have all: "\<forall>r\<in>set ?rs. \<exists>y. r = Inr (Some y)"
    unfolding set_map set_enumerate_0 by auto
  from assms have r: "r = Some (JArr (concat (map present ?rs)))"
    by (auto simp: v Let_def split: if_splits)
  let ?ys = "map (\<lambda>r. the (projr r)) ?rs"
  have "zparse s (p @ [Index i]) (Some (xs ! i)) = Inr (Some (?ys ! i))" if "i < length xs" for i
    using each[OF that] that by (auto simp: nth_enumerate_eq)
  with r v show ?thesis
    unfolding concat_present[OF all] by (intro exI[of _ xs] exI[of _ ?ys]) simp
qed

text \<open>
  C8. The validator rejects a payload that is no object or lacks a required top-level
  field; it rejects a payload in which a declared number (the price of an evaluated
  phone, one of its scores, the price of the selected phone) is a string; and a payload
  that it accepts is still accepted without \<open>runner_up\<close> and without the two budget
  alternatives.
\<close>

theorem validator_required_numeric_optional:
  "((\<forall>kvs. payload \<noteq> JObj kvs) \<longrightarrow> isl (zparse PhoneComparisonSchema [] (Some payload)))
   \<and> (k \<in> {js ''selected_phone'', js ''all_phones_evaluated'', js ''tradeoff_analysis'',
            js ''specification_comparison'', js ''budget_analysis'', js ''summary''}
        \<and> map_of kvs k = None
      \<longrightarrow> isl (zparse PhoneComparisonSchema [] (Some (JObj kvs))))
   \<and> (map_of kvs (js ''all_phones_evaluated'') = Some (JArr xs) \<and> i < length xs
        \<and> xs ! i = JObj item \<and> map_of item (js ''price_inr'') = Some (JStr t)
      \<longrightarrow> isl (zparse PhoneComparisonSchema [] (Some (JObj kvs))))
   \<and> (map_of kvs (js ''all_phones_evaluated'') = Some (JArr xs) \<and> i < length xs
        \<and> xs ! i = JObj item \<and> map_of item (js ''score_by_priority'') = Some (JObj scores)
        \<and> (priority, JStr t) \<in> set scores
      \<longrightarrow> isl (zparse PhoneComparisonSchema [] (Some (JObj kvs))))
   \<and> (map_of kvs (js ''budget_analysis'') = Some (JObj b)
        \<and> map_of b (js ''selected_phone_price'') = Some (JStr t)
      \<longrightarrow> isl (zparse PhoneComparisonSchema [] (Some (JObj kvs))))
   \<and> (\<not> isl (zparse PhoneComparisonSchema [] (Some (JObj kvs)))
      \<longrightarrow> \<not> isl (zparse PhoneComparisonSchema [] (Some (JObj (omit_optional_fields kvs)))))"
proof (intro conjI impI)
  assume "\<forall>kvs. payload \<noteq> JObj kvs"
  then show "isl (zparse PhoneComparisonSchema [] (Some payload))"
    unfolding PhoneComparisonSchema_def by (intro zparse_ZObject_not_object) simp
next
  assume "k \<in> {js ''selected_phone'', js ''all_phones_evaluated'', js ''tradeoff_analysis'',
            js ''specification_comparison'', js ''budget_analysis'', js ''summary''}
        \<and> map_of kvs k = None"
  then show "isl (zparse PhoneComparisonSchema [] (Some (JObj kvs)))"
    using missing_required_field_rejected[of k kvs "[]"] by blast
next
  assume "map_of kvs (js ''all_phones_evaluated'') = Some (JArr xs) \<and> i < length xs
        \<and> xs ! i = JObj item \<and> map_of item (js ''price_inr'') = Some (JStr t)"
  then show "isl (zparse PhoneComparisonSchema [] (Some (JObj kvs)))"
    using string_price_rejected[of kvs xs i item t "[]"] by blast
next
  assume "map_of kvs (js ''all_phones_evaluated'') = Some (JArr xs) \<and> i < length xs
        \<and> xs ! i = JObj item \<and> map_of item (js ''score_by_priority'') = Some (JObj scores)
        \<and> (priority, JStr t) \<in> set scores"
  then show "isl (zparse PhoneComparisonSchema [] (Some (JObj kvs)))"
    using string_score_rejected[of kvs xs i item scores priority t "[]"] by blast
next
  assume "map_of kvs (js ''budget_analysis'') = Some (JObj b)
        \<and> map_of b (js ''selected_phone_price'') = Some (JStr t)"
  then show "isl (zparse PhoneComparisonSchema [] (Some (JObj kvs)))"
    using string_selected_price_rejected[of kvs b t "[]"] by blast
next
  assume "\<not> isl (zparse PhoneComparisonSchema [] (Some (JObj kvs)))"
  then show "\<not> isl (zparse PhoneComparisonSchema [] (Some (JObj (omit_optional_fields kvs))))"
    by (rule optional_fields_may_be_omitted)
qed

lemma example_without_optional_fields:
  "omit_optional_fields (example_fields price) =
     [(js ''selected_phone'', JObj
         [(js ''phone_id'', JStr (js ''p2'')),
          (js ''phone_name'', JStr (js ''B'')),
          (js ''reason_for_selection'', JStr (js ''r'')),
          (js ''how_it_matches_priorities'', JStr (js ''h''))]),
      (js ''all_phones_evaluated'', JArr [JObj
         [(js ''phone_id'', JStr (js ''p2'')),
          (js ''phone_name'', JStr (js ''B'')),
          (js ''price_inr'', price),
          (js ''key_strengths'', JArr [JStr (js ''s'')]),
          (js ''key_weaknesses'', JArr [JStr (js ''w'')]),
          (js ''score_by_priority'', JObj [(js ''battery'', JNum 8)])]]),
      (js ''tradeoff_analysis'', JArr []),
      (js ''specification_comparison'', JArr []),
      (js ''budget_analysis'', JObj
         [(js ''selected_phone_price'', JNum 29999),
          (js ''price_range'', JStr (js ''mid'')),
          (js ''value_for_money_explanation'', JStr (js ''v''))]),
      (js ''summary'', JStr (js ''ok''))]"
  by (simp add: omit_optional_fields_def delete_key_def example_fields_def js_def)

lemma example_evaluated:
  "map_of (example_fields price) (js ''all_phones_evaluated'') = Some (JArr [JObj
         [(js ''phone_id'', JStr (js ''p2'')),
          (js ''phone_name'', JStr (js ''B'')),
          (js ''price_inr'', price),
          (js ''key_strengths'', JArr [JStr (js ''s'')]),
          (js ''key_weaknesses'', JArr [JStr (js ''w'')]),
          (js ''score_by_priority'', JObj [(js ''battery'', JNum 8)])]])"
  by (simp add: example_fields_def js_def)

theorem validator_required_numeric_optional_witness:
  "isl (zparse PhoneComparisonSchema [] (Some (JArr [])))
   \<and> isl (zparse PhoneComparisonSchema [] (Some (JObj
          (delete_key (js ''selected_phone'') (example_fields (JNum 29999))))))
   \<and> isl (zparse PhoneComparisonSchema [] (Some (JObj (example_fields (JStr (js ''29999''))))))
   \<and> isl (zparse PhoneComparisonSchema [] (Some (JObj
          [(js ''all_phones_evaluated'',
            JArr [JObj [(js ''score_by_priority'', JObj [(js ''battery'', JStr (js ''8''))])]])])))
   \<and> isl (zparse PhoneComparisonSchema [] (Some (JObj
          [(js ''budget_analysis'', JObj [(js ''selected_phone_price'', JStr (js ''29999''))])])))
   \<and> \<not> isl (zparse PhoneComparisonSchema [] (Some (JObj
          (omit_optional_fields (example_fields (JNum 29999))))))"
proof -
  have 1: "\<forall>kvs. JArr [] \<noteq> JObj kvs" by simp
  have 2: "js ''selected_phone'' \<in> {js ''selected_phone'', js ''all_phones_evaluated'',
             js ''tradeoff_analysis'', js ''specification_comparison'', js ''budget_analysis'',
             js ''summary''}
           \<and> map_of (delete_key (js ''selected_phone'') (example_fields (JNum 29999)))
                (js ''selected_phone'') = None"
    by (simp add: map_of_delete_key)
  let ?item = "[(js ''phone_id'', JStr (js ''p2'')),
          (js ''phone_name'', JStr (js ''B'')),
          (js ''price_inr'', JStr (js ''29999'')),
          (js ''key_strengths'', JArr [JStr (js ''s'')]),
          (js ''key_weaknesses'', JArr [JStr (js ''w'')]),
          (js ''score_by_priority'', JObj [(js ''battery'', JNum 8)])]"
  have 3: "map_of (example_fields (JStr (js ''29999''))) (js ''all_phones_evaluated'')
             = Some (JArr [JObj ?item]) \<and> 0 < length [JObj ?item]
           \<and> [JObj ?item] ! 0 = JObj ?item
           \<and> map_of ?item (js ''price_inr'') = Some (JStr (js ''29999''))"
    by (simp add: example_evaluated) (simp add: js_def)
  let ?scores = "[(js ''battery'', JStr (js ''8''))]"
  let ?scored = "[(js ''score_by_priority'', JObj ?scores)]"
  let ?kvs4 = "[(js ''all_phones_evaluated'', JArr [JObj ?scored])]"
  have 4: "map_of ?kvs4 (js ''all_phones_evaluated'') = Some (JArr [JObj ?scored])
           \<and> 0 < length [JObj ?scored] \<and> [JObj ?scored] ! 0 = JObj ?scored
           \<and> map_of ?scored (js ''score_by_priority'') = Some (JObj ?scores)
           \<and> (js ''battery'', JStr (js ''8'')) \<in> set ?scores"
    by simp
  let ?b = "[(js ''selected_phone_price'', JStr (js ''29999''))]"
  let ?kvs5 = "[(js ''budget_analysis'', JObj ?b)]"
  have 5: "map_of ?kvs5 (js ''budget_analysis'') = Some (JObj ?b)
           \<and> map_of ?b (js ''selected_phone_price'') = Some (JStr (js ''29999''))"
    by simp
  have 6: "\<not> isl (zparse PhoneComparisonSchema [] (Some (JObj (example_fields (JNum 29999)))))"
    using example_payload_valid by (simp add: example_payload_def)
  have "isl (zparse PhoneComparisonSchema [] (Some (JArr [])))"
    using validator_required_numeric_optional[where payload = "JArr []"] 1 by blast
  moreover have "isl (zparse PhoneComparisonSchema [] (Some (JObj
          (delete_key (js ''selected_phone'') (example_fields (JNum 29999))))))"
    using validator_required_numeric_optional[where k = "js ''selected_phone''"
        and kvs = "delete_key (js ''selected_phone'') (example_fields (JNum 29999))"] 2
    by blast
  moreover have "isl (zparse PhoneComparisonSchema [] (Some (JObj
          (example_fields (JStr (js ''29999''))))))"
    using validator_required_numeric_optional[where kvs = "example_fields (JStr (js ''29999''))"
        and xs = "[JObj ?item]" and i = 0 and item = ?item and t = "js ''29999''"] 3
    by blast
  moreover have "isl (zparse PhoneComparisonSchema [] (Some (JObj ?kvs4)))"
    using validator_required_numeric_optional[where kvs = ?kvs4 and xs = "[JObj ?scored]"
        and i = 0 and item = ?scored and scores = ?scores and priority = "js ''battery''"
        and t = "js ''8''"] 4
    by blast
  moreover have "isl (zparse PhoneComparisonSchema [] (Some (JObj ?kvs5)))"
    using validator_required_numeric_optional[where kvs = ?kvs5 and b = ?b
        and t = "js ''29999''"] 5
    by blast
  moreover have "\<not> isl (zparse PhoneComparisonSchema [] (Some (JObj
          (omit_optional_fields (example_fields (JNum 29999))))))"
    using validator_required_numeric_optional[where kvs = "example_fields (JNum 29999)"] 6
    by blast
  ultimately
  show ?thesis by blast
qed

section \<open>The phone identifiers of a result\<close>

lemma attempt_Inr:
  "attempt e prompt m = Inr r \<Longrightarrow>
   \<exists>raw parsed. generateContent e m prompt = Inr raw
     \<and> JSON_parse e (extract_json raw) = Inr parsed
     \<and> zparse PhoneComparisonSchema [] (Some parsed) = Inr r"
  by (auto simp: attempt_def split: sum.splits)

lemma try_models_cases:
  "try_models e prompt ms lastError invoked = (res, tr) \<Longrightarrow>
   (\<exists>msg. res = Inl (ErrorObj msg)) \<or> (\<exists>m\<in>set ms. \<exists>r. attempt e prompt m = Inr r \<and> res = Inr r)"
proof (induction ms arbitrary: lastError invoked)
  case Nil
  then show ?case by auto
next
  case (Cons m ms)
  show ?case
  proof (cases "attempt e prompt m")
    case (Inl err)
    with Cons.prems have "try_models e prompt ms (Some (error_message err)) (invoked @ [m]) = (res, tr)"
      by simp
    from Cons.IH[OF this] show ?thesis by auto
  next
    case (Inr r)
    with Cons.prems have "res = Inr r" by simp
    with Inr show ?thesis by (intro disjI2 bexI[of _ m]) auto
  qed
qed

lemma compareAndSelectPhone_cases:
  assumes "compareAndSelectPhone e request = (res, invoked)"
  shows "(\<exists>msg. res = Inl (ErrorObj msg))
         \<or> (\<exists>m\<in>set modelsToTry. \<exists>raw parsed r.
               generateContent e m (build_prompt e request) = Inr raw
               \<and> JSON_parse e (extract_json raw) = Inr parsed
               \<and> zparse PhoneComparisonSchema [] (Some parsed) = Inr r \<and> res = Inr r)"
proof (cases "credential_set e \<and> ComparisonRequest.phones request \<noteq> []")
  case True
  with assms have "try_models e (build_prompt e request) modelsToTry None [] = (res, invoked)"
    by (simp add: compareAndSelectPhone_loop)
  from try_models_cases[OF this] show ?thesis
    by (blast dest: attempt_Inr)
next
  case False
  with assms show ?thesis
    by (auto simp: compareAndSelectPhone_def credential_set_def split: option.splits if_splits)
qed

lemma schema_keys_distinct:
  "distinct (map fst
     [(js ''selected_phone'', s1), (js ''runner_up'', s2), (js ''all_phones_evaluated'', s3),
      (js ''tradeoff_analysis'', s4), (js ''specification_comparison'', s5),
      (js ''budget_analysis'', s6), (js ''summary'', s7)])"
  "distinct (map fst
     [(js ''phone_id'', t1), (js ''phone_name'', t2), (js ''reason_for_selection'', t3),
      (js ''how_it_matches_priorities'', t4)])"
  "distinct (map fst
     [(js ''phone_id'', t1), (js ''phone_name'', t2), (js ''why_not_selected'', t3)])"
  "distinct (map fst
     [(js ''phone_id'', t1), (js ''phone_name'', t2), (js ''price_inr'', t3),
      (js ''key_strengths'', t4), (js ''key_weaknesses'', t5), (js ''score_by_priority'', t6)])"
  by (simp_all add: js_def)

lemma get_property_JObj: "get_property (Some (JObj kvs)) k = map_of kvs k"
  by (simp add: get_property_def)

lemma phone_id_kept:
  assumes "zparse (ZObject shape) p v = Inr r"
    and "distinct (map fst shape)" and "(js ''phone_id'', ZString) \<in> set shape"
  shows "get_property r (js ''phone_id'') = get_property v (js ''phone_id'')
         \<and> (\<exists>t. get_property r (js ''phone_id'') = Some (JStr t))"
proof -
  from zparse_ZObject_property[OF assms] obtain kvs where v: "v = Some (JObj kvs)"
    and "zparse ZString (p @ [Key (js ''phone_id'')]) (map_of kvs (js ''phone_id''))
           = Inr (get_property r (js ''phone_id''))"
    by blast
  from zparse_ZString_Inr[OF this(2)] v show ?thesis
    by (auto simp: get_property_JObj)
qed

lemma selected_phone_id_kept:
  assumes "zparse PhoneComparisonSchema p (Some parsed) = Inr r"
  shows "selected_phone_id r = selected_phone_id (Some parsed)
         \<and> (\<exists>t. selected_phone_id r = Some (JStr t))"
proof -
  let ?selected = "ZObject
         [(js ''phone_id'', ZString),
          (js ''phone_name'', ZString),
          (js ''reason_for_selection'', ZString),
          (js ''how_it_matches_priorities'', ZString)]"
  from zparse_ZObject_property[OF assms[unfolded PhoneComparisonSchema_def]
      schema_keys_distinct(1), of "js ''selected_phone''" ?selected]
  obtain kvs where parsed: "parsed = JObj kvs"
    and "zparse ?selected (p @ [Key (js ''selected_phone'')]) (map_of kvs (js ''selected_phone''))
           = Inr (get_property r (js ''selected_phone''))"
    by auto
  from phone_id_kept[OF this(2) schema_keys_distinct(2)] parsed show ?thesis
    by (auto simp: selected_phone_id_def get_property_JObj) metis
qed

lemma runner_up_phone_id_kept:
  assumes "zparse PhoneComparisonSchema p (Some parsed) = Inr r"
  shows "runner_up_phone_id r = runner_up_phone_id (Some parsed)
         \<and> (get_property r (js ''runner_up'') = None
            \<or> (\<exists>t. runner_up_phone_id r = Some (JStr t)))"
proof -
  let ?runner_up = "ZObject
         [(js ''phone_id'', ZString),
          (js ''phone_name'', ZString),
          (js ''why_not_selected'', ZString)]"
  from zparse_ZObject_property[OF assms[unfolded PhoneComparisonSchema_def]
      schema_keys_distinct(1), of "js ''runner_up''" "ZOptional ?runner_up"]
  obtain kvs where parsed: "parsed = JObj kvs"
    and opt: "zparse (ZOptional ?runner_up) (p @ [Key (js ''runner_up'')])
                (map_of kvs (js ''runner_up'')) = Inr (get_property r (js ''runner_up''))"
    by auto
  show ?thesis
  proof (cases "map_of kvs (js ''runner_up'')")
    case None
    with opt have "get_property r (js ''runner_up'') = None" by simp
    with None parsed show ?thesis
      by (simp add: runner_up_phone_id_def get_property_JObj)
  next
    case (Some x)
    with opt have "zparse ?runner_up (p @ [Key (js ''runner_up'')]) (map_of kvs (js ''runner_up''))
                     = Inr (get_property r (js ''runner_up''))"
      by (simp del: zparse.simps(5))
    from phone_id_kept[OF this schema_keys_distinct(3)] parsed show ?thesis
      by (auto simp: runner_up_phone_id_def get_property_JObj)
  qed
qed

lemma evaluated_phone_ids_kept:
  assumes "zparse PhoneComparisonSchema p (Some parsed) = Inr r"
  shows "evaluated_phone_ids r = evaluated_phone_ids (Some parsed)
         \<and> (\<forall>v\<in>set (evaluated_phone_ids r). \<exists>t. v = Some (JStr t))"
proof -
  let ?evaluated = "ZObject
         [(js ''phone_id'', ZString),
          (js ''phone_name'', ZString),
          (js ''price_inr'', ZNumber),
          (js ''key_strengths'', ZArray ZString),
          (js ''key_weaknesses'', ZArray ZString),
          (js ''score_by_priority'', ZRecord ZString ZNumber)]"
  let ?q = "p @ [Key (js ''all_phones_evaluated'')]"
  from zparse_ZObject_property[OF assms[unfolded PhoneComparisonSchema_def]
      schema_keys_distinct(1), of "js ''all_phones_evaluated''" "ZArray ?evaluated"]
  obtain kvs where parsed: "parsed = JObj kvs"
    and "zparse (ZArray ?evaluated) ?q (map_of kvs (js ''all_phones_evaluated''))
           = Inr (get_property r (js ''all_phones_evaluated''))"
    by auto
  from zparse_ZArray_Inr[OF this(2)] obtain xs ys
    where xs: "map_of kvs (js ''all_phones_evaluated'') = Some (JArr xs)"
      and ys: "get_property r (js ''all_phones_evaluated'') = Some (JArr ys)"
      and len: "length ys = length xs"
      and each: "\<forall>i<length xs. zparse ?evaluated (?q @ [Index i]) (Some (xs ! i)) = Inr (Some (ys ! i))"
    by blast
  have kept: "get_property (Some (ys ! i)) (js ''phone_id'') = get_property (Some (xs ! i)) (js ''phone_id'')
              \<and> (\<exists>t. get_property (Some (ys ! i)) (js ''phone_id'') = Some (JStr t))"
    if "i < length xs" for i
    using each that by (intro phone_id_kept[OF _ schema_keys_distinct(4)]) auto
  have "map (\<lambda>y. get_property (Some y) (js ''phone_id'')) ys
          = map (\<lambda>x. get_property (Some x) (js ''phone_id'')) xs"
    using kept len by (intro nth_equalityI) auto
  moreover have "\<forall>v\<in>set (map (\<lambda>y. get_property (Some y) (js ''phone_id'')) ys). \<exists>t. v = Some (JStr t)"
  proof
    fix v
    assume "v \<in> set (map (\<lambda>y. get_property (Some y) (js ''phone_id'')) ys)"
    then obtain i where "i < length ys" and "v = get_property (Some (ys ! i)) (js ''phone_id'')"
      by (auto simp: in_set_conv_nth)
    with kept[of i] len show "\<exists>t. v = Some (JStr t)" by metis
  qed
  ultimately show ?thesis
    using parsed xs ys by (simp add: evaluated_phone_ids_def get_property_JObj)
qed

lemma first_attempt_returned:
  assumes "credential_set e" and "ComparisonRequest.phones request \<noteq> []"
    and "attempt e (build_prompt e request) (modelsToTry ! 0) = Inr r"
  shows "compareAndSelectPhone e request = (Inr r, [modelsToTry ! 0])"
  using assms by (simp add: compareAndSelectPhone_loop modelsToTry_def)

lemma example_attempt:
  "attempt (example_env (Inr example_payload_text) second) prompt (modelsToTry ! 0)
     = Inr (Some example_payload)"
  by (simp add: attempt_def example_first_response example_JSON_parse example_payload_text_bare
      example_parse_payload_text example_payload_valid)

text \<open>
  C1, as the code has it. \<open>compareAndSelectPhone\<close> fails with an \<open>Error\<close>, or it returns
  the value validated from the payload of one of the models' responses; the phone
  identifiers of the result (the selected phone's, a string; the runner-up's; the evaluated
  phones') are those the payload holds. Nothing compares them with the phones of the
  request.
\<close>

theorem result_holds_the_ids_of_the_backend_payload:
  assumes "compareAndSelectPhone e request = (res, invoked)"
  shows "(\<exists>msg. res = Inl (ErrorObj msg))
         \<or> (\<exists>m\<in>set modelsToTry. \<exists>raw parsed r.
               generateContent e m (build_prompt e request) = Inr raw
               \<and> JSON_parse e (extract_json raw) = Inr parsed
               \<and> zparse PhoneComparisonSchema [] (Some parsed) = Inr r \<and> res = Inr r
               \<and> selected_phone_id r = selected_phone_id (Some parsed)
               \<and> (\<exists>t. selected_phone_id r = Some (JStr t))
               \<and> runner_up_phone_id r = runner_up_phone_id (Some parsed)
               \<and> evaluated_phone_ids r = evaluated_phone_ids (Some parsed))"
  using compareAndSelectPhone_cases[OF assms]
proof
  assume "\<exists>msg. res = Inl (ErrorObj msg)"
  then show ?thesis ..
next
  assume "\<exists>m\<in>set modelsToTry. \<exists>raw parsed r.
               generateContent e m (build_prompt e request) = Inr raw
               \<and> JSON_parse e (extract_json raw) = Inr parsed
               \<and> zparse PhoneComparisonSchema [] (Some parsed) = Inr r \<and> res = Inr r"
  then obtain m raw parsed r where "m \<in> set modelsToTry"
    and "generateContent e m (build_prompt e request) = Inr raw"
    and "JSON_parse e (extract_json raw) = Inr parsed"
    and valid: "zparse PhoneComparisonSchema [] (Some parsed) = Inr r" and "res = Inr r"
    by blast
  with selected_phone_id_kept[OF valid] runner_up_phone_id_kept[OF valid]
    evaluated_phone_ids_kept[OF valid]
  show ?thesis by blast
qed

theorem result_holds_the_ids_of_the_backend_payload_witness:
  "\<exists>m\<in>set modelsToTry. \<exists>raw parsed.
     generateContent (example_env (Inr example_payload_text) (Inl NonError)) m
       (build_prompt (example_env (Inr example_payload_text) (Inl NonError)) example_request)
       = Inr raw
     \<and> JSON_parse (example_env (Inr example_payload_text) (Inl NonError)) (extract_json raw)
         = Inr parsed
     \<and> selected_phone_id (Some example_payload) = selected_phone_id (Some parsed)
     \<and> runner_up_phone_id (Some example_payload) = runner_up_phone_id (Some parsed)
     \<and> evaluated_phone_ids (Some example_payload) = evaluated_phone_ids (Some parsed)"
proof -
  let ?e = "example_env (Inr example_payload_text) (Inl NonError)"
  have "compareAndSelectPhone ?e example_request
          = (Inr (Some example_payload), [modelsToTry ! 0])"
    by (rule first_attempt_returned[OF example_credential_set example_phones_nonempty
          example_attempt])
  from result_holds_the_ids_of_the_backend_payload[OF this]
  show ?thesis by auto
qed

text \<open>
  C1, as the specification words it, fails: with a request whose only phone is \<open>p1\<close>
  and a response that selects \<open>p2\<close>, the result names a phone the request does not have.
\<close>

theorem unknown_phone_id_counterexample:
  "ComparisonRequest.phones
       (example_request\<lparr>ComparisonRequest.phones := [example_phone (js ''p1'')]\<rparr>) \<noteq> []
   \<and> priorities (example_request\<lparr>ComparisonRequest.phones := [example_phone (js ''p1'')]\<rparr>) \<noteq> []
   \<and> compareAndSelectPhone (example_env (Inr example_payload_text) (Inl NonError))
         (example_request\<lparr>ComparisonRequest.phones := [example_phone (js ''p1'')]\<rparr>)
       = (Inr (Some example_payload), [js ''gemini-2.0-flash-exp''])
   \<and> selected_phone_id (Some example_payload) = Some (JStr (js ''p2''))
   \<and> \<not> references_only_request_phones
         (example_request\<lparr>ComparisonRequest.phones := [example_phone (js ''p1'')]\<rparr>)
         (Some example_payload)"
proof -
  let ?request = "example_request\<lparr>ComparisonRequest.phones := [example_phone (js ''p1'')]\<rparr>"
  have "ComparisonRequest.phones ?request \<noteq> []" by simp
  from first_attempt_returned[OF example_credential_set this example_attempt]
  have "compareAndSelectPhone (example_env (Inr example_payload_text) (Inl NonError)) ?request
          = (Inr (Some example_payload), [js ''gemini-2.0-flash-exp''])"
    by (simp add: modelsToTry_def)
  moreover have selected: "selected_phone_id (Some example_payload) = Some (JStr (js ''p2''))"
    by (simp add: selected_phone_id_def get_property_JObj example_payload_def example_fields_def
        js_def)
  moreover have "js ''p2'' \<noteq> js ''p1''" by (simp add: js_def)
  then have "\<not> references_only_request_phones ?request (Some example_payload)"
    by (simp add: references_only_request_phones_def selected is_phone_id_of_def
        example_phone_def)
  moreover have "priorities ?request \<noteq> []" by (simp add: example_request_def)
  ultimately show ?thesis by simp
qed

section \<open>Properties of the server action\<close>

lemma compareAndSelectPhone_defined:
  assumes "compareAndSelectPhone e request = (Inr r, invoked)"
  shows "r \<noteq> None"
  using compareAndSelectPhone_cases[OF assms] by (auto dest: zparse_defined)

lemma compareWithGrounding_defined:
  assumes "fst (compareWithGrounding e request) = Inr g"
  shows "GroundedComparison.comparison g \<noteq> None"
proof -
  obtain res invoked where c: "compareAndSelectPhone e request = (res, invoked)"
    by (cases "compareAndSelectPhone e request")
  with assms obtain r where "res = Inr r" and "GroundedComparison.comparison g = r"
    by (cases res) (auto simp: compareWithGrounding_def)
  with c compareAndSelectPhone_defined show ?thesis by blast
qed

lemma comparePhones_try_state:
  assumes "comparePhones_try e formData = Inr state"
  shows "CompareState.comparison state \<noteq> None \<longleftrightarrow> CompareState.error state = None"
proof -
  have selected: "fst (compareAndSelectPhone e request) = Inr c \<Longrightarrow> c \<noteq> None" for request c
    by (cases "compareAndSelectPhone e request") (auto dest: compareAndSelectPhone_defined)
  from assms show ?thesis
    unfolding comparePhones_try_def Let_def
    by (auto split: sum.splits if_splits dest: selected compareWithGrounding_defined)
qed

text \<open>
  C9. \<open>comparePhones\<close> yields a state for every form, whatever its collaborators throw
  (the model is a total function in which every exception is a value, caught by the
  \<open>catch\<close> clause); and in that state the comparison is present exactly when the error
  is absent.
\<close>

theorem comparePhones_comparison_iff_no_error:
  "CompareState.comparison (comparePhones e prevState formData) \<noteq> None
     \<longleftrightarrow> CompareState.error (comparePhones e prevState formData) = None"
proof (cases "comparePhones_try e formData")
  case (Inl err)
  then show ?thesis by (simp add: comparePhones_def)
next
  case (Inr state)
  with comparePhones_try_state[OF this] show ?thesis by (simp add: comparePhones_def)
qed

lemma example_actions_compare:
  assumes "ComparisonRequest.phones request \<noteq> []"
  shows "compareAndSelectPhone (example_actions_env (Inr example_payload_text) second) request
           = (Inr (Some example_payload), [modelsToTry ! 0])"
proof (rule first_attempt_returned[OF _ assms])
  show "credential_set (example_actions_env (Inr example_payload_text) second)"
    by (simp add: credential_set_def example_actions_env_def js_def)
  show "attempt (example_actions_env (Inr example_payload_text) second)
          (build_prompt (example_actions_env (Inr example_payload_text) second) request)
          (modelsToTry ! 0) = Inr (Some example_payload)"
    by (simp add: attempt_def example_actions_env_def example_payload_text_bare
        example_parse_payload_text example_payload_valid)
qed

lemma example_form_priorities:
  "parse_priorities (formData_get example_form (js ''priorities''))
     = Inr [js ''battery'', js ''camera'']"
proof -
  have "str_split (js ''battery, camera'') (js '','') = [js ''battery'', js '' camera'']"
    by (simp add: str_split.simps js_def)
  moreover have "str_trim (js ''battery'') = js ''battery''" "str_trim (js '' camera'') = js ''camera''"
    by (simp_all add: str_trim_def is_white_space_def js_def)
  moreover have "formData_get example_form (js ''priorities'') = Some (FString (js ''battery, camera''))"
    by (simp add: formData_get_def example_form_def js_def)
  moreover have "js ''battery, camera'' \<noteq> []" "js ''battery'' \<noteq> []" "js ''camera'' \<noteq> []"
    by (simp_all add: js_def)
  ultimately show ?thesis by (simp add: parse_priorities_def)
qed

lemma example_form_state:
  "comparePhones_try (example_actions_env (Inr example_payload_text) second) example_form
     = Inr \<lparr>comparison = Some example_payload,
            phones = [example_phone (js ''p1''), example_phone (js ''p2''), example_phone (js ''p3'')],
            sources = [], error = None, processingTime = 500\<rparr>"
proof -
  let ?e = "example_actions_env (Inr example_payload_text) second"
  have budget: "parse_budget ?e (formData_get example_form (js ''budget'')) = Some (Num 30000)"
    by (simp add: parse_budget_def formData_get_def example_form_def example_actions_env_def
        to_string_def js_def)
  have loaded: "load_phones ?e (Some (Num 30000))
     = Inr [example_phone (js ''p1''), example_phone (js ''p2''), example_phone (js ''p3'')]"
    by (simp add: load_phones_def example_actions_env_def)
  have absent: "formData_get example_form (js ''require_5g'') = None"
    "formData_get example_form (js ''use_grounding'') = None"
    by (simp_all add: formData_get_def example_form_def js_def)
  have times: "Date_now_end ?e - Date_now_start ?e = 500"
    by (simp add: example_actions_env_def)
  show ?thesis
    unfolding comparePhones_try_def budget example_form_priorities
    by (simp add: loaded absent times example_actions_compare Let_def)
qed

theorem comparePhones_comparison_iff_no_error_witness:
  "CompareState.comparison
       (comparePhones (example_actions_env (Inr example_payload_text) (Inl NonError))
          \<lparr>comparison = None, phones = [], sources = [], error = None, processingTime = 0\<rparr>
          example_form) = Some example_payload
   \<and> CompareState.error
       (comparePhones (example_actions_env (Inr example_payload_text) (Inl NonError))
          \<lparr>comparison = None, phones = [], sources = [], error = None, processingTime = 0\<rparr>
          example_form) = None"
proof -
  let ?state = "comparePhones (example_actions_env (Inr example_payload_text) (Inl NonError))
          \<lparr>comparison = None, phones = [], sources = [], error = None, processingTime = 0\<rparr>
          example_form"
  have "CompareState.comparison ?state = Some example_payload"
    by (simp add: comparePhones_def example_form_state)
  with comparePhones_comparison_iff_no_error[of "example_actions_env (Inr example_payload_text) (Inl NonError)"
      "\<lparr>comparison = None, phones = [], sources = [], error = None, processingTime = 0\<rparr>"
      example_form]
  show ?thesis by simp
qed

lemma comparePhones_without_priorities:
  "comparePhones e prevState [] =
     \<lparr>comparison = None, phones = [], sources = [],
      error = Some (js ''Please select at least one priority (battery, camera, performance, etc.)''),
      processingTime = 0\<rparr>"
  by (simp add: comparePhones_def comparePhones_try_def parse_priorities_def formData_get_def
      Let_def)

end
